theory Spec2Isabelle
  imports Complex_Main
begin

section \<open>Numeric model\<close>

text \<open>
  The toolkit computes with Python floats and NumPy arrays of floats.  Here a float is a
  real number and every arithmetic operation is exact: rounding, infinities and NaN are
  not represented.  Where NumPy would produce a non-finite value and the code reacts to
  it (the division by zero inside \<open>geometric2geopotential\<close> at \<open>z = - R_EARTH\<close>), the
  reaction is written out as a branch of the model.

  An \<open>ArrayLike\<close> value is either a Python scalar or a one-dimensional array (a list or
  an ndarray of shape \<open>(n,)\<close>); arrays of higher rank are outside the model.  Every
  number is a float (dtype \<open>float64\<close>): integer arrays, whose arithmetic wraps around, are
  outside the model too.  A scalar field of an \<open>ISAState\<close> is a Python \<open>float\<close>, as
  \<open>isa_atmosphere\<close> returns it.

  Two claims depend on rounding.  For them the last sections repeat the formulas involved
  with every operation rounded to double precision.
\<close>

datatype ArrayLike = Scalar real | Array "real list"

text \<open>
  Every failure the source raises itself is a Python \<open>ValueError\<close>.  The constructors
  tell the places that raise apart:
  \<^item> \<open>OutOfRange\<close>: the range check of \<open>isa_atmosphere\<close>;
  \<^item> \<open>InvalidArgument\<close>: the \<open>speed_type\<close> check of \<open>aerodynamic_state\<close>;
  \<^item> \<open>ShapeMismatch\<close>: NumPy's "operands could not be broadcast together";
  \<^item> \<open>SizeError\<close>: \<open>_maybe_scalar\<close>'s "Cannot convert array of size > 1 to scalar";
  \<^item> \<open>ZeroDivisionError\<close>: Python's own error when one \<open>float\<close> is divided by a
    \<open>float\<close> zero;
  \<^item> \<open>HigherRank\<close>: not an error of the source; it marks a call that would build an
    array of rank two, which this model does not represent.
\<close>

datatype error =
  OutOfRange | InvalidArgument | ShapeMismatch | SizeError | ZeroDivisionError | HigherRank

definition bindE :: "error + 'a \<Rightarrow> ('a \<Rightarrow> error + 'b) \<Rightarrow> error + 'b" where
  "bindE m f = (case m of Inl e \<Rightarrow> Inl e | Inr x \<Rightarrow> f x)"

fun isscalar :: "ArrayLike \<Rightarrow> bool" where
  "isscalar (Scalar x) = True"
| "isscalar (Array xs) = False"

text \<open>\<open>np.asarray(x, dtype=float)\<close>, as the flat list of its elements.\<close>

fun np_asarray :: "ArrayLike \<Rightarrow> real list" where
  "np_asarray (Scalar x) = [x]"
| "np_asarray (Array xs) = xs"

section \<open>constants.py\<close>

definition g0 :: real where "g0 = 9.80665"
definition R :: real where "R = 287.05287"
definition gamma_air :: real where "gamma_air = 1.4"

definition T0 :: real where "T0 = 288.15"
definition p0 :: real where "p0 = 101325"
definition rho0 :: real where "rho0 = p0 / (R * T0)"
definition a0 :: real where "a0 = (gamma_air * R * T0) powr 0.5"

definition R_EARTH :: real where "R_EARTH = 6356766"

section \<open>isa.py\<close>

record ISAState =
  geometric_altitude :: ArrayLike
  geopotential_altitude :: ArrayLike
  temperature :: ArrayLike
  pressure :: ArrayLike
  density :: ArrayLike
  speed_of_sound :: ArrayLike
  dynamic_viscosity :: ArrayLike
  kinematic_viscosity :: ArrayLike

subsection \<open>The layer table\<close>

definition Hb :: "real list" where
  "Hb = [0, 11000, 20000]"

definition lapserate :: "real list" where
  "lapserate = [- 0.0065, 0, 0.0010]"

definition Tb :: "real list" where
  "Tb = (let Tb0 = T0;
             Tb1 = Tb0 + lapserate ! 0 * (11000 - Hb ! 0);
             Tb2 = Tb1
         in [Tb0, Tb1, Tb2])"

definition pb :: "real list" where
  "pb = (let pb0 = p0;
             pb1 = pb0 * (Tb ! 1 / Tb ! 0) powr (- g0 / (R * lapserate ! 0));
             pb2 = pb1 * exp (- g0 * (20000 - 11000) / (R * Tb ! 1))
         in [pb0, pb1, pb2])"

subsection \<open>Altitude conversions\<close>

text \<open>
  At \<open>z = - R_EARTH\<close> the float division is by zero and NumPy returns \<open>-inf\<close>; HOL's
  \<open>x / 0\<close> is \<open>0\<close>.  \<open>isa_atmosphere\<close> below treats that input separately; the same holds
  for \<open>geopotential2geometric\<close> at \<open>H = R_EARTH\<close>.
\<close>

fun geometric2geopotential :: "ArrayLike \<Rightarrow> ArrayLike" where
  "geometric2geopotential (Scalar z) = Scalar (R_EARTH * z / (R_EARTH + z))"
| "geometric2geopotential (Array zs) = Array (map (\<lambda>z. R_EARTH * z / (R_EARTH + z)) zs)"

fun geopotential2geometric :: "ArrayLike \<Rightarrow> ArrayLike" where
  "geopotential2geometric (Scalar H) = Scalar (R_EARTH * H / (R_EARTH - H))"
| "geopotential2geometric (Array Hs) = Array (map (\<lambda>H. R_EARTH * H / (R_EARTH - H)) Hs)"

subsection \<open>Layer formulas\<close>

definition isa_gradient :: "real list \<Rightarrow> real \<Rightarrow> real \<Rightarrow> real \<Rightarrow> real \<Rightarrow> real list \<times> real list" where
  "isa_gradient H Hb' Tb' pb' L =
     (let T = map (\<lambda>h. Tb' + L * (h - Hb')) H;
          p = map (\<lambda>t. pb' * (t / Tb') powr (- g0 / (R * L))) T
      in (T, p))"

definition isa_isothermal :: "real list \<Rightarrow> real \<Rightarrow> real \<Rightarrow> real \<Rightarrow> real list \<times> real list" where
  "isa_isothermal H Hb' Tb' pb' =
     (let T = replicate (length H) Tb';
          p = map (\<lambda>h. pb' * exp (- g0 * (h - Hb') / (R * Tb'))) H
      in (T, p))"

definition maybe_scalar :: "ArrayLike \<Rightarrow> real list \<Rightarrow> error + ArrayLike" where
  "maybe_scalar x_in x_out =
     (if isscalar x_in then
        (if length x_out = 1 then Inr (Scalar (hd x_out)) else Inl SizeError)
      else Inr (Array x_out))"

subsection \<open>Boolean-mask indexing\<close>

text \<open>\<open>a[idx]\<close>: the elements of \<open>a\<close> where the mask holds, in order.\<close>

fun mask_get :: "bool list \<Rightarrow> 'a list \<Rightarrow> 'a list" where
  "mask_get (b # bs) (x # xs) = (if b then x # mask_get bs xs else mask_get bs xs)"
| "mask_get _ _ = []"

text \<open>\<open>a[idx] = vs\<close>: the values \<open>vs\<close> go, in order, to the places where the mask holds.\<close>

fun mask_set :: "bool list \<Rightarrow> 'a list \<Rightarrow> 'a list \<Rightarrow> 'a list" where
  "mask_set (True # bs) (x # xs) (v # vs) = v # mask_set bs xs vs"
| "mask_set (False # bs) (x # xs) vs = x # mask_set bs xs vs"
| "mask_set _ xs _ = xs"

text \<open>
  \<open>np.select\<close> over the three conditions, for one element: the first condition that
  holds decides, and the default is \<open>0\<close>.
\<close>

definition select_layer :: "real \<Rightarrow> nat" where
  "select_layer h =
     (if h < 11000 then 0
      else if 11000 \<le> h \<and> h < 20000 then 1
      else if 20000 \<le> h then 2
      else 0)"

subsection \<open>The atmosphere query\<close>

text \<open>
  Temperature and pressure of every point (lines 132 to 154 of \<open>isa.py\<close>).
  \<open>np.empty_like\<close> leaves its contents unspecified; the model fills it with zeros.
\<close>

definition layer_fill :: "real list \<Rightarrow> real list \<times> real list" where
  "layer_fill H_arr =
     (let layer = map select_layer H_arr;
          T = replicate (length H_arr) 0;
          p = replicate (length H_arr) 0;
          idx0 = map (\<lambda>l. l = 0) layer;
          (T, p) = (if list_ex id idx0 then
                      (let (Tn, pn) = isa_gradient (mask_get idx0 H_arr) (Hb ! 0) (Tb ! 0) (pb ! 0) (lapserate ! 0)
                       in (mask_set idx0 T Tn, mask_set idx0 p pn))
                    else (T, p));
          idx1 = map (\<lambda>l. l = 1) layer;
          (T, p) = (if list_ex id idx1 then
                      (let (Tn, pn) = isa_isothermal (mask_get idx1 H_arr) (Hb ! 1) (Tb ! 1) (pb ! 1)
                       in (mask_set idx1 T Tn, mask_set idx1 p pn))
                    else (T, p));
          idx2 = map (\<lambda>l. l = 2) layer;
          (T, p) = (if list_ex id idx2 then
                      (let (Tn, pn) = isa_gradient (mask_get idx2 H_arr) (Hb ! 2) (Tb ! 2) (pb ! 2) (lapserate ! 2)
                       in (mask_set idx2 T Tn, mask_set idx2 p pn))
                    else (T, p))
      in (T, p))"

text \<open>
  \<open>isa_atmosphere(altitude, geometric=...)\<close>.  The first branch is the range check seen
  from a geometric altitude of \<open>- R_EARTH\<close>: there \<open>H\<close> is \<open>-inf\<close>, so \<open>np.any(H_arr < 0)\<close>
  holds and the call raises.  Every other input goes through the range check on real
  numbers.
\<close>

definition isa_atmosphere :: "ArrayLike \<Rightarrow> bool \<Rightarrow> error + ISAState" where
  "isa_atmosphere altitude geometric =
     (if geometric \<and> - R_EARTH \<in> set (np_asarray altitude) then Inl OutOfRange
      else
        let H = (if geometric then geometric2geopotential altitude else altitude);
            H_arr = np_asarray H
        in
        if list_ex (\<lambda>h. h < 0) H_arr \<or> list_ex (\<lambda>h. h > 32000) H_arr then Inl OutOfRange
        else
          let (T, p) = layer_fill H_arr;
              rho = map2 (\<lambda>p T. p / (R * T)) p T;
              a = map (\<lambda>T. sqrt (gamma_air * R * T)) T;
              mu = map (\<lambda>T. 1.458 / 10 ^ 6 * T powr 1.5 / (T + 110.4)) T;
              nu = map2 (\<lambda>mu rho. mu / rho) mu rho
          in
          bindE (maybe_scalar altitude T) (\<lambda>T_out.
          bindE (maybe_scalar altitude p) (\<lambda>p_out.
          bindE (maybe_scalar altitude rho) (\<lambda>rho_out.
          bindE (maybe_scalar altitude a) (\<lambda>a_out.
          bindE (maybe_scalar altitude mu) (\<lambda>mu_out.
          bindE (maybe_scalar altitude nu) (\<lambda>nu_out.
          bindE (maybe_scalar altitude
                   (if geometric then np_asarray altitude
                    else np_asarray (geopotential2geometric (Array H_arr)))) (\<lambda>geometric_altitude_out.
          bindE (maybe_scalar altitude H_arr) (\<lambda>geopotential_altitude_out.
          Inr \<lparr> geometric_altitude = geometric_altitude_out,
                geopotential_altitude = geopotential_altitude_out,
                temperature = T_out,
                pressure = p_out,
                density = rho_out,
                speed_of_sound = a_out,
                dynamic_viscosity = mu_out,
                kinematic_viscosity = nu_out \<rparr>)))))))))"

text \<open>\<open>sea_level_atmosphere = isa_atmosphere(0)\<close>, evaluated when the module is loaded.\<close>

definition sea_level_atmosphere :: ISAState where
  "sea_level_atmosphere = projr (isa_atmosphere (Scalar 0) True)"

subsection \<open>The formulas at one point\<close>

text \<open>
  What the query computes at one geopotential altitude \<open>h\<close>, written as functions of
  \<open>h\<close>.  The lemmas of the next sections show that \<open>layer_fill\<close>, and with it
  \<open>isa_atmosphere\<close>, computes exactly these values at every point of its input.
\<close>

definition T_at :: "real \<Rightarrow> real" where
  "T_at h = (if h < 11000 then Tb ! 0 + lapserate ! 0 * (h - Hb ! 0)
             else if h < 20000 then Tb ! 1
             else Tb ! 2 + lapserate ! 2 * (h - Hb ! 2))"

definition p_at :: "real \<Rightarrow> real" where
  "p_at h = (if h < 11000 then
               pb ! 0 * ((Tb ! 0 + lapserate ! 0 * (h - Hb ! 0)) / Tb ! 0) powr (- g0 / (R * lapserate ! 0))
             else if h < 20000 then
               pb ! 1 * exp (- g0 * (h - Hb ! 1) / (R * Tb ! 1))
             else
               pb ! 2 * ((Tb ! 2 + lapserate ! 2 * (h - Hb ! 2)) / Tb ! 2) powr (- g0 / (R * lapserate ! 2)))"

definition rho_at :: "real \<Rightarrow> real" where
  "rho_at h = p_at h / (R * T_at h)"

definition a_at :: "real \<Rightarrow> real" where
  "a_at h = sqrt (gamma_air * R * T_at h)"

definition mu_at :: "real \<Rightarrow> real" where
  "mu_at h = 1.458 / 10 ^ 6 * T_at h powr 1.5 / (T_at h + 110.4)"

definition nu_at :: "real \<Rightarrow> real" where
  "nu_at h = mu_at h / rho_at h"

text \<open>The state at index \<open>i\<close> of a state whose fields are arrays.\<close>

fun elem :: "ArrayLike \<Rightarrow> nat \<Rightarrow> ArrayLike" where
  "elem (Array xs) i = Scalar (xs ! i)"
| "elem (Scalar x) i = Scalar x"

definition state_elem :: "ISAState \<Rightarrow> nat \<Rightarrow> ISAState" where
  "state_elem s i =
     \<lparr> geometric_altitude = elem (geometric_altitude s) i,
       geopotential_altitude = elem (geopotential_altitude s) i,
       temperature = elem (temperature s) i,
       pressure = elem (pressure s) i,
       density = elem (density s) i,
       speed_of_sound = elem (speed_of_sound s) i,
       dynamic_viscosity = elem (dynamic_viscosity s) i,
       kinematic_viscosity = elem (kinematic_viscosity s) i \<rparr>"

text \<open>The shape of a value: \<open>None\<close> for a scalar, \<open>Some n\<close> for an array of \<open>n\<close> elements.\<close>

fun shape :: "ArrayLike \<Rightarrow> nat option" where
  "shape (Scalar x) = None"
| "shape (Array xs) = Some (length xs)"

definition state_shape :: "ISAState \<Rightarrow> nat option \<Rightarrow> bool" where
  "state_shape s sh \<longleftrightarrow>
     shape (geometric_altitude s) = sh \<and> shape (geopotential_altitude s) = sh \<and>
     shape (temperature s) = sh \<and> shape (pressure s) = sh \<and> shape (density s) = sh \<and>
     shape (speed_of_sound s) = sh \<and> shape (dynamic_viscosity s) = sh \<and>
     shape (kinematic_viscosity s) = sh"

text \<open>The geopotential altitudes the range check of \<open>isa_atmosphere\<close> looks at.\<close>

definition geopotential_of :: "ArrayLike \<Rightarrow> bool \<Rightarrow> real list" where
  "geopotential_of altitude geometric =
     np_asarray (if geometric then geometric2geopotential altitude else altitude)"

text \<open>The state the query returns for a scalar input with geopotential altitude \<open>h\<close>.\<close>

definition point_state :: "real \<Rightarrow> real \<Rightarrow> ISAState" where
  "point_state z h =
     \<lparr> geometric_altitude = Scalar z, geopotential_altitude = Scalar h,
       temperature = Scalar (T_at h), pressure = Scalar (p_at h), density = Scalar (rho_at h),
       speed_of_sound = Scalar (a_at h), dynamic_viscosity = Scalar (mu_at h),
       kinematic_viscosity = Scalar (nu_at h) \<rparr>"

text \<open>
  The two cases of the range check.  At \<open>z = - R_EARTH\<close> the float \<open>H\<close> is \<open>-inf\<close>, which
  is below the range.
\<close>

definition in_range :: "ArrayLike \<Rightarrow> bool \<Rightarrow> bool" where
  "in_range altitude geometric \<longleftrightarrow>
     \<not> (geometric \<and> - R_EARTH \<in> set (np_asarray altitude)) \<and>
     (\<forall>h\<in>set (geopotential_of altitude geometric). 0 \<le> h \<and> h \<le> 32000)"

definition out_of_range :: "ArrayLike \<Rightarrow> bool \<Rightarrow> bool" where
  "out_of_range altitude geometric \<longleftrightarrow>
     (geometric \<and> - R_EARTH \<in> set (np_asarray altitude)) \<or>
     (\<exists>h\<in>set (geopotential_of altitude geometric). h < 0 \<or> 32000 < h)"

section \<open>aerodynamics.py\<close>

record AerodynamicState =
  TAS :: ArrayLike
  EAS :: ArrayLike
  mach :: ArrayLike
  reynolds :: ArrayLike
  dynamic_pressure :: ArrayLike
  stagnation_pressure :: ArrayLike

text \<open>
  The argument \<open>atmosphere_state\<close> is one \<open>ISAState\<close> or a sequence of them, or \<open>None\<close>
  (the default): an \<open>atmosphere option\<close>.
\<close>

datatype atmosphere = State ISAState | States "ISAState list"

subsection \<open>NumPy arithmetic\<close>

text \<open>
  An elementwise binary operation with broadcasting.  Two arrays combine when their
  lengths are equal or one of them has length one; otherwise NumPy raises.
  Division by zero and the square root of a negative number do not raise in NumPy (they
  give \<open>inf\<close> or \<open>nan\<close>); the model has HOL's values there (\<open>x / 0 = 0\<close>,
  \<open>sqrt (- x) = - sqrt x\<close>), and no theorem below relies on them.

  \<open>py_div\<close> is the division of two state fields.  Two scalar fields are Python floats,
  and Python raises \<open>ZeroDivisionError\<close> when the divisor is zero; as soon as one operand
  is an array the division is NumPy's.
\<close>

fun np_op :: "(real \<Rightarrow> real \<Rightarrow> real) \<Rightarrow> ArrayLike \<Rightarrow> ArrayLike \<Rightarrow> error + ArrayLike" where
  "np_op f (Scalar x) (Scalar y) = Inr (Scalar (f x y))"
| "np_op f (Scalar x) (Array ys) = Inr (Array (map (f x) ys))"
| "np_op f (Array xs) (Scalar y) = Inr (Array (map (\<lambda>x. f x y) xs))"
| "np_op f (Array xs) (Array ys) =
     (if length xs = length ys then Inr (Array (map2 f xs ys))
      else if length xs = 1 then Inr (Array (map (f (hd xs)) ys))
      else if length ys = 1 then Inr (Array (map (\<lambda>x. f x (hd ys)) xs))
      else Inl ShapeMismatch)"

fun np_map :: "(real \<Rightarrow> real) \<Rightarrow> ArrayLike \<Rightarrow> ArrayLike" where
  "np_map f (Scalar x) = Scalar (f x)"
| "np_map f (Array xs) = Array (map f xs)"

fun py_div :: "ArrayLike \<Rightarrow> ArrayLike \<Rightarrow> error + ArrayLike" where
  "py_div (Scalar x) (Scalar y) = (if y = 0 then Inl ZeroDivisionError else Inr (Scalar (x / y)))"
| "py_div a b = np_op (/) a b"

text \<open>
  \<open>np.array([...])\<close> of one field of every state of a sequence.  With scalar fields the
  result is a one-dimensional array; with array fields it would have rank two.
\<close>

definition np_array :: "ArrayLike list \<Rightarrow> error + ArrayLike" where
  "np_array xs =
     (if list_all isscalar xs then Inr (Array (concat (map np_asarray xs))) else Inl HigherRank)"

subsection \<open>The aerodynamic state\<close>

definition allowed_speed_types :: "string set" where
  "allowed_speed_types = {''TAS'', ''EAS'', ''mach''}"

text \<open>The four branches of the \<open>if\<close>/\<open>elif\<close>/\<open>else\<close> chain on \<open>speed_type\<close>.\<close>

datatype branch = TAS_branch | EAS_branch | mach_branch | fallback_branch

definition speed_branch :: "string \<Rightarrow> branch" where
  "speed_branch speed_type =
     (if speed_type = ''TAS'' then TAS_branch
      else if speed_type = ''EAS'' then EAS_branch
      else if speed_type = ''mach'' then mach_branch
      else fallback_branch)"

text \<open>What the chosen branch assigns to \<open>TAS\<close> and \<open>EAS\<close>.\<close>

fun tas_eas :: "branch \<Rightarrow> ArrayLike \<Rightarrow> ArrayLike \<Rightarrow> ArrayLike \<Rightarrow> ArrayLike \<Rightarrow> error + ArrayLike \<times> ArrayLike" where
  "tas_eas TAS_branch speed_arr rho sos rho0' =
     (let tas = speed_arr in
      bindE (py_div rho rho0') (\<lambda>q.
      bindE (np_op (*) tas (np_map sqrt q)) (\<lambda>eas.
      Inr (tas, eas))))"
| "tas_eas EAS_branch speed_arr rho sos rho0' =
     (let eas = speed_arr in
      bindE (py_div rho0' rho) (\<lambda>q.
      bindE (np_op (*) eas (np_map sqrt q)) (\<lambda>tas.
      Inr (tas, eas))))"
| "tas_eas mach_branch speed_arr rho sos rho0' =
     (let mach_in = speed_arr in
      bindE (np_op (*) mach_in sos) (\<lambda>tas.
      bindE (py_div rho rho0') (\<lambda>q.
      bindE (np_op (*) tas (np_map sqrt q)) (\<lambda>eas.
      Inr (tas, eas)))))"
| "tas_eas fallback_branch speed_arr rho sos rho0' = Inr (Array [0], Array [0])"

text \<open>Density, speed of sound, viscosity and pressure of the atmosphere argument.\<close>

fun atmosphere_fields :: "atmosphere \<Rightarrow> error + ArrayLike \<times> ArrayLike \<times> ArrayLike \<times> ArrayLike" where
  "atmosphere_fields (State s) =
     Inr (density s, speed_of_sound s, dynamic_viscosity s, pressure s)"
| "atmosphere_fields (States ss) =
     bindE (np_array (map density ss)) (\<lambda>rho.
     bindE (np_array (map speed_of_sound ss)) (\<lambda>sos.
     bindE (np_array (map dynamic_viscosity ss)) (\<lambda>mu.
     bindE (np_array (map pressure ss)) (\<lambda>p.
     Inr (rho, sos, mu, p)))))"

definition aerodynamic_state ::
  "ArrayLike \<Rightarrow> ArrayLike \<Rightarrow> string \<Rightarrow> atmosphere option \<Rightarrow> error + AerodynamicState" where
  "aerodynamic_state speed characteristic_length speed_type atmosphere_state =
     (if speed_type \<notin> allowed_speed_types then Inl InvalidArgument
      else
        let atmosphere_state' =
              (case atmosphere_state of None \<Rightarrow> State sea_level_atmosphere | Some a \<Rightarrow> a)
        in
        bindE (atmosphere_fields atmosphere_state') (\<lambda>(rho, sos, mu, p).
        let rho0' = density sea_level_atmosphere;
            speed_arr = speed;
            char_len_arr = characteristic_length
        in
        bindE (tas_eas (speed_branch speed_type) speed_arr rho sos rho0') (\<lambda>(tas, eas).
        bindE (np_op (/) tas sos) (\<lambda>mach_out.
        bindE (np_op (*) tas rho) (\<lambda>r1.
        bindE (np_op (*) r1 char_len_arr) (\<lambda>r2.
        bindE (np_op (/) r2 mu) (\<lambda>reynolds_out.
        bindE (np_op (*) (np_map (\<lambda>x. 0.5 * x) rho) (np_map (\<lambda>x. x ^ 2) tas)) (\<lambda>q.
        bindE (np_op (+) q p) (\<lambda>stagnation.
        Inr \<lparr> TAS = tas,
              EAS = eas,
              mach = mach_out,
              reynolds = reynolds_out,
              dynamic_pressure = q,
              stagnation_pressure = stagnation \<rparr>)))))))))"

subsection \<open>Shapes under broadcasting\<close>

text \<open>
  Two shapes can be combined when one is a scalar, or the lengths are equal, or one length
  is 1; \<open>bshape\<close> is the shape of the result.  \<open>np_val\<close> names the array a successful
  operation returns.
\<close>

definition broadcastable :: "nat option \<Rightarrow> nat option \<Rightarrow> bool" where
  "broadcastable a b =
     (case (a, b) of (Some n, Some m) \<Rightarrow> n = m \<or> n = 1 \<or> m = 1 | _ \<Rightarrow> True)"

definition bshape :: "nat option \<Rightarrow> nat option \<Rightarrow> nat option" where
  "bshape a b =
     (case (a, b) of
        (None, _) \<Rightarrow> b
      | (_, None) \<Rightarrow> a
      | (Some n, Some m) \<Rightarrow> if n = m then Some n else if n = 1 then Some m else Some n)"

definition np_val :: "(real \<Rightarrow> real \<Rightarrow> real) \<Rightarrow> ArrayLike \<Rightarrow> ArrayLike \<Rightarrow> ArrayLike" where
  "np_val f a b = projr (np_op f a b)"

text \<open>The shapes of the six fields of a result.\<close>

definition field_shapes :: "AerodynamicState \<Rightarrow> nat option list" where
  "field_shapes s =
     [shape (TAS s), shape (EAS s), shape (mach s), shape (reynolds s),
      shape (dynamic_pressure s), shape (stagnation_pressure s)]"

section \<open>Double precision\<close>

text \<open>
  A Python float is an IEEE 754 double: every operation returns the exact result rounded to
  the nearest number with 53 significant bits, ties going to the even neighbour.  \<open>fl\<close> is
  that rounding.  The exponent is unbounded here: overflow to \<open>inf\<close> and the gradual
  underflow below \<open>2 ^ -1022\<close> are not represented, so \<open>fl\<close> is the rounding of the code for
  results of normal size only.
\<close>

definition round_even :: "real \<Rightarrow> int" where
  "round_even y =
     (let f = \<lfloor>y\<rfloor>; r = y - of_int f
      in if r < 1 / 2 then f else if 1 / 2 < r then f + 1 else if even f then f else f + 1)"

definition fl :: "real \<Rightarrow> real" where
  "fl x =
     (if x = 0 then 0
      else let u = 2 powr (of_int \<lfloor>log 2 \<bar>x\<bar>\<rfloor> - 52)
           in of_int (round_even (x / u)) * u)"

text \<open>
  The density of \<open>sea_level_atmosphere\<close> in doubles.  At altitude 0 the query has
  \<open>T = T0\<close> and \<open>p = p0\<close>, so the density is \<open>p0 / (R * T0)\<close> with both operations
  rounded; the literals \<open>287.05287\<close> and \<open>288.15\<close> are the nearest doubles.
\<close>

definition rho0_fl :: real where
  "rho0_fl = fl (p0 / fl (fl R * fl T0))"

text \<open>
  \<open>tas_eas\<close> for scalar arguments, with every operation rounded: the division of two
  Python floats, \<open>np.sqrt\<close> and the product are each correctly rounded.
\<close>

fun tas_eas_fl :: "branch \<Rightarrow> real \<Rightarrow> real \<Rightarrow> real \<Rightarrow> real \<Rightarrow> error + real \<times> real" where
  "tas_eas_fl TAS_branch speed rho sos rho0' =
     (if rho0' = 0 then Inl ZeroDivisionError
      else let tas = speed;
               eas = fl (tas * fl (sqrt (fl (rho / rho0'))))
           in Inr (tas, eas))"
| "tas_eas_fl EAS_branch speed rho sos rho0' =
     (if rho = 0 then Inl ZeroDivisionError
      else let eas = speed;
               tas = fl (eas * fl (sqrt (fl (rho0' / rho))))
           in Inr (tas, eas))"
| "tas_eas_fl mach_branch speed rho sos rho0' =
     (if rho0' = 0 then Inl ZeroDivisionError
      else let tas = fl (speed * sos);
               eas = fl (tas * fl (sqrt (fl (rho / rho0'))))
           in Inr (tas, eas))"
| "tas_eas_fl fallback_branch speed rho sos rho0' = Inr (0, 0)"

text \<open>
  \<open>x ** y\<close> and \<open>np.exp\<close> in doubles.  They are library functions, accurate to about one
  unit in the last place and not specified to the last bit.  The power of \<open>1.0\<close> is exactly
  \<open>1.0\<close> and \<open>exp(0.0)\<close> is exactly \<open>1.0\<close>; elsewhere the result is taken to be the correctly
  rounded one.
\<close>

definition pow_fl :: "real \<Rightarrow> real \<Rightarrow> real" where
  "pow_fl x y = (if x = 1 then 1 else fl (x powr y))"

definition exp_fl :: "real \<Rightarrow> real" where
  "exp_fl x = fl (exp x)"

text \<open>\<open>_isa_gradient\<close> and \<open>_isa_isothermal\<close> at one point, with every operation rounded.\<close>

definition isa_gradient_fl :: "real \<Rightarrow> real \<Rightarrow> real \<Rightarrow> real \<Rightarrow> real \<Rightarrow> real \<times> real" where
  "isa_gradient_fl H Hb' Tb' pb' L =
     (let T = fl (Tb' + fl (L * fl (H - Hb')));
          p = fl (pb' * pow_fl (fl (T / Tb')) (fl (- fl g0 / fl (fl R * L))))
      in (T, p))"


text \<open>
  The layer table as the module computes it at import: the literals are the nearest
  doubles and every operation is rounded.
\<close>

definition lapserate_fl :: "real list" where
  "lapserate_fl = map fl lapserate"

definition Tb_fl :: "real list" where
  "Tb_fl = (let Tb0 = fl T0;
                Tb1 = fl (Tb0 + fl (lapserate_fl ! 0 * fl (11000 - Hb ! 0)));
                Tb2 = Tb1
            in [Tb0, Tb1, Tb2])"

definition pb_fl :: "real list" where
  "pb_fl = (let pb0 = fl p0;
                pb1 = fl (pb0 * pow_fl (fl (Tb_fl ! 1 / Tb_fl ! 0))
                                       (fl (- fl g0 / fl (fl R * lapserate_fl ! 0))));
                pb2 = fl (pb1 * exp_fl (fl (fl (- fl g0 * fl (20000 - 11000)) / fl (fl R * Tb_fl ! 1))))
            in [pb0, pb1, pb2])"

text \<open>\<open>geometric2geopotential\<close> for a scalar, with every operation rounded.\<close>

definition geometric2geopotential_fl :: "real \<Rightarrow> real" where
  "geometric2geopotential_fl z = fl (fl (R_EARTH * z) / fl (R_EARTH + z))"


section \<open>Boolean masks and the layer table\<close>

lemma mask_get_map: "mask_get (map P xs) xs = filter P xs"
  by (induction xs) auto

lemma mask_set_map:
  "length ts = length xs \<Longrightarrow>
   mask_set (map P xs) ts (map f (filter P xs)) = map2 (\<lambda>x t. if P x then f x else t) xs ts"
proof (induction xs arbitrary: ts)
  case Nil then show ?case by simp
next
  case (Cons x xs)
  then obtain t ts' where ts: "ts = t # ts'" by (cases ts) auto
  with Cons show ?case by (cases "P x") auto
qed

lemma list_ex_id_map: "list_ex id (map P xs) = (\<exists>x\<in>set xs. P x)"
  by (induction xs) auto

lemma map2_noop:
  "length ts = length xs \<Longrightarrow> \<forall>x\<in>set xs. \<not> P x \<Longrightarrow>
   map2 (\<lambda>x t. if P x then f x else t) xs ts = ts"
proof (induction xs arbitrary: ts)
  case Nil then show ?case by simp
next
  case (Cons x xs)
  then obtain t ts' where ts: "ts = t # ts'" by (cases ts) auto
  with Cons show ?case by auto
qed

lemma fill_step:
  assumes "length T = length H" "length p = length H"
  shows "(if list_ex id (map P H) then
            (mask_set (map P H) T (map fT (filter P H)),
             mask_set (map P H) p (map fp (filter P H)))
          else (T, p)) =
         (map2 (\<lambda>x t. if P x then fT x else t) H T, map2 (\<lambda>x t. if P x then fp x else t) H p)"
  using assms by (auto simp: list_ex_id_map mask_set_map map2_noop)

lemma isa_gradient_map:
  "isa_gradient H hb tb pb' L =
     (map (\<lambda>h. tb + L * (h - hb)) H,
      map (\<lambda>h. pb' * ((tb + L * (h - hb)) / tb) powr (- g0 / (R * L))) H)"
  by (simp add: isa_gradient_def Let_def comp_def)

lemma isa_isothermal_map:
  "isa_isothermal H hb tb pb' =
     (map (\<lambda>h. tb) H, map (\<lambda>h. pb' * exp (- g0 * (h - hb) / (R * tb))) H)"
  by (simp add: isa_isothermal_def Let_def map_replicate_const)

lemma fill3:
  "map2 (\<lambda>x t. if P2 x then f2 x else t) H
     (map2 (\<lambda>x t. if P1 x then f1 x else t) H
        (map2 (\<lambda>x t. if P0 x then f0 x else t) H (replicate (length H) z))) =
   map (\<lambda>h. if P2 h then f2 h else if P1 h then f1 h else if P0 h then f0 h else z) H"
  by (induction H) auto

lemma layer_fill_eq: "layer_fill H = (map T_at H, map p_at H)"
proof -
  let ?P0 = "\<lambda>h. select_layer h = 0" and ?P1 = "\<lambda>h. select_layer h = 1"
    and ?P2 = "\<lambda>h. select_layer h = 2"
  have "layer_fill H =
     (map (\<lambda>h. if ?P2 h then Tb ! 2 + lapserate ! 2 * (h - Hb ! 2)
               else if ?P1 h then Tb ! 1
               else if ?P0 h then Tb ! 0 + lapserate ! 0 * (h - Hb ! 0) else 0) H,
      map (\<lambda>h. if ?P2 h then pb ! 2 * ((Tb ! 2 + lapserate ! 2 * (h - Hb ! 2)) / Tb ! 2) powr (- g0 / (R * lapserate ! 2))
               else if ?P1 h then pb ! 1 * exp (- g0 * (h - Hb ! 1) / (R * Tb ! 1))
               else if ?P0 h then pb ! 0 * ((Tb ! 0 + lapserate ! 0 * (h - Hb ! 0)) / Tb ! 0) powr (- g0 / (R * lapserate ! 0))
               else 0) H)"
    unfolding layer_fill_def Let_def map_map comp_def mask_get_map isa_gradient_map isa_isothermal_map
    by (simp only: fill_step length_map length_zip min.idem length_replicate fill3 prod.case)
  also have "\<dots> = (map T_at H, map p_at H)"
    by (auto simp: T_at_def p_at_def select_layer_def)
  finally show ?thesis .
qed

lemma map2_same: "map2 f (map g xs) (map h xs) = map (\<lambda>x. f (g x) (h x)) xs"
  by (induction xs) auto

lemma isa_atmosphere_Scalar:
  "isa_atmosphere (Scalar x) g =
     (let h = (if g then R_EARTH * x / (R_EARTH + x) else x) in
      if (g \<and> x = - R_EARTH) \<or> h < 0 \<or> 32000 < h then Inl OutOfRange
      else Inr (point_state (if g then x else R_EARTH * h / (R_EARTH - h)) h))"
  by (auto simp: isa_atmosphere_def Let_def layer_fill_eq maybe_scalar_def bindE_def point_state_def
      rho_at_def a_at_def mu_at_def nu_at_def)

lemma isa_atmosphere_Array:
  "isa_atmosphere (Array xs) g =
     (let hs = (if g then map (\<lambda>x. R_EARTH * x / (R_EARTH + x)) xs else xs) in
      if (g \<and> - R_EARTH \<in> set xs) \<or> (\<exists>h\<in>set hs. h < 0 \<or> 32000 < h) then Inl OutOfRange
      else Inr \<lparr> geometric_altitude = Array (if g then xs else map (\<lambda>h. R_EARTH * h / (R_EARTH - h)) hs),
                 geopotential_altitude = Array hs,
                 temperature = Array (map T_at hs), pressure = Array (map p_at hs),
                 density = Array (map rho_at hs), speed_of_sound = Array (map a_at hs),
                 dynamic_viscosity = Array (map mu_at hs),
                 kinematic_viscosity = Array (map nu_at hs) \<rparr>)"
  by (auto simp: isa_atmosphere_def Let_def layer_fill_eq maybe_scalar_def bindE_def map2_same
      rho_at_def a_at_def mu_at_def nu_at_def list_ex_iff comp_def)

section \<open>The layer constants\<close>

lemma Tb_eq: "Tb = [288.15, 216.65, 216.65]"
  by (simp add: Tb_def Let_def T0_def lapserate_def Hb_def)

lemma pb_eq:
  "pb = [p0,
         p0 * (216.65 / 288.15) powr (g0 / (R * 0.0065)),
         p0 * (216.65 / 288.15) powr (g0 / (R * 0.0065)) * exp (- (g0 * 9000 / (R * 216.65)))]"
  by (simp add: pb_def Let_def Tb_eq lapserate_def)

lemma pb_pos: "0 < pb ! 0" "0 < pb ! 1" "0 < pb ! Suc 0" "0 < pb ! 2"
  by (simp_all add: pb_eq p0_def)

lemma gR_pos: "0 < g0" "0 < R"
  by (simp_all add: g0_def R_def)

lemma T_at_eq:
  "T_at h = (if h < 11000 then 288.15 - 0.0065 * h
             else if h < 20000 then 216.65 else 216.65 + 0.001 * (h - 20000))"
  by (simp add: T_at_def Tb_eq Hb_def lapserate_def)

lemma p_at_eq:
  "p_at h = (if h < 11000 then pb ! 0 * ((288.15 - 0.0065 * h) / 288.15) powr (g0 / (R * 0.0065))
             else if h < 20000 then pb ! 1 * exp (- (g0 * (h - 11000) / (R * 216.65)))
             else pb ! 2 * ((216.65 + 0.001 * (h - 20000)) / 216.65) powr (- (g0 / (R * 0.001))))"
  by (simp add: p_at_def Tb_eq Hb_def lapserate_def)

lemma T_at_pos: "0 \<le> h \<Longrightarrow> h \<le> 32000 \<Longrightarrow> 0 < T_at h"
  unfolding T_at_eq by (auto simp: field_simps)

lemma p_at_pos: "0 \<le> h \<Longrightarrow> h \<le> 32000 \<Longrightarrow> 0 < p_at h"
proof -
  assume h: "0 \<le> h" "h \<le> 32000"
  have a: "h < 11000 \<Longrightarrow> (288.15 - 0.0065 * h) / 288.15 \<noteq> 0" by simp
  have b: "\<not> h < 20000 \<Longrightarrow> (216.65 + 0.001 * (h - 20000)) / 216.65 \<noteq> 0"
    by (auto simp: field_simps)
  show ?thesis
    unfolding p_at_eq using a b pb_pos by (simp del: divide_eq_0_iff add: zero_less_mult_iff)
qed

section \<open>Pressure decreases with altitude\<close>

lemma p_at_low:
  assumes "x < y" "y \<le> 11000"
  shows "pb ! 0 * ((288.15 - 0.0065 * y) / 288.15) powr (g0 / (R * 0.0065))
       < pb ! 0 * ((288.15 - 0.0065 * x) / 288.15) powr (g0 / (R * 0.0065))"
proof -
  have k: "0 < g0 / (R * 0.0065)" using gR_pos by simp
  have b: "0 \<le> (288.15 - 0.0065 * y) / 288.15" using assms by simp
  have lt: "(288.15 - 0.0065 * y) / 288.15 < (288.15 - 0.0065 * x) / 288.15"
    using assms by simp
  from powr_less_mono2 [OF k b lt] pb_pos(1) show ?thesis by simp
qed

lemma p_at_mid:
  assumes "x < y"
  shows "pb ! 1 * exp (- (g0 * (y - 11000) / (R * 216.65)))
       < pb ! 1 * exp (- (g0 * (x - 11000) / (R * 216.65)))"
proof -
  have "g0 * (x - 11000) / (R * 216.65) < g0 * (y - 11000) / (R * 216.65)"
    using assms gR_pos by (simp add: divide_strict_right_mono)
  then show ?thesis using pb_pos(2) by simp
qed

lemma p_at_high:
  assumes "20000 \<le> x" "x < y"
  shows "pb ! 2 * ((216.65 + 0.001 * (y - 20000)) / 216.65) powr (- (g0 / (R * 0.001)))
       < pb ! 2 * ((216.65 + 0.001 * (x - 20000)) / 216.65) powr (- (g0 / (R * 0.001)))"
proof -
  have k: "- (g0 / (R * 0.001)) < 0" using gR_pos by simp
  have b: "0 < (216.65 + 0.001 * (x - 20000)) / 216.65" using assms by (simp add: field_simps)
  have lt: "(216.65 + 0.001 * (x - 20000)) / 216.65 < (216.65 + 0.001 * (y - 20000)) / 216.65"
    using assms by simp
  from powr_less_mono2_neg [OF k b lt] pb_pos(4) show ?thesis by simp
qed

lemma p_at_11000: "p_at 11000 = pb ! 1"
  by (simp add: p_at_eq)

lemma p_at_20000: "p_at 20000 = pb ! 2"
  by (simp add: p_at_eq)

lemma p_low_11000:
  "pb ! 0 * ((288.15 - 0.0065 * 11000) / 288.15) powr (g0 / (R * 0.0065)) = pb ! 1"
  by (simp add: pb_eq)

lemma p_mid_20000:
  "pb ! 1 * exp (- (g0 * (20000 - 11000) / (R * 216.65))) = pb ! 2"
  by (simp add: pb_eq)

lemma p_at_strict_antimono:
  assumes "x < y" "y \<le> 32000"
  shows "p_at y < p_at x"
proof -
  have low: "p_at b < p_at a" if "a < b" "b < 11000" for a b
    using p_at_low [of a b] that by (simp add: p_at_eq)
  have low': "p_at 11000 < p_at a" if "a < 11000" for a
    using p_at_low [of a 11000] that p_low_11000 by (simp add: p_at_eq)
  have mid: "p_at b < p_at a" if "11000 \<le> a" "a < b" "b < 20000" for a b
    using p_at_mid [of a b] that by (simp add: p_at_eq)
  have mid': "p_at 20000 < p_at a" if "11000 \<le> a" "a < 20000" for a
    using p_at_mid [of a 20000] that p_mid_20000 by (simp add: p_at_eq)
  have high: "p_at b < p_at a" if "20000 \<le> a" "a < b" for a b
    using p_at_high [of a b] that by (simp add: p_at_eq)
  have le_mid: "p_at b \<le> p_at 11000" if "11000 \<le> b" "b < 20000" for b
    using mid [of 11000 b] that by (cases "b = 11000") auto
  have le_high: "p_at b \<le> p_at 20000" if "20000 \<le> b" for b
    using high [of 20000 b] that by (cases "b = 20000") auto
  have top: "p_at 20000 < p_at 11000" using mid' [of 11000] by simp
  consider "y < 11000" | "x < 11000" "11000 \<le> y" "y < 20000" | "x < 11000" "20000 \<le> y"
    | "11000 \<le> x" "y < 20000" | "11000 \<le> x" "x < 20000" "20000 \<le> y" | "20000 \<le> x"
    using assms by linarith
  then show ?thesis
  proof cases
    case 1 then show ?thesis using low assms by simp
  next
    case 2 then show ?thesis using low' [of x] le_mid [of y] by simp
  next
    case 3 then show ?thesis using low' [of x] le_high [of y] top by simp
  next
    case 4 then show ?thesis using mid assms by simp
  next
    case 5 then show ?thesis using mid' [of x] le_high [of y] by simp
  next
    case 6 then show ?thesis using high assms by simp
  qed
qed

section \<open>Continuity at the layer boundaries\<close>

lemma isCont_piecewise:
  fixes f g :: "real \<Rightarrow> real"
  assumes g: "continuous (at_left a) g" and f: "continuous (at_right a) f"
    and eq: "f a = g a" and d: "0 < d"
    and F: "\<And>h. \<bar>h - a\<bar> < d \<Longrightarrow> F h = (if h < a then g h else f h)"
  shows "isCont F a"
proof -
  have "(f \<longlongrightarrow> g a) (at_right a)"
    using f eq by (simp add: continuous_within)
  with g have "isCont (\<lambda>x. if x \<le> a then g x else f x) a"
    by (rule isCont_If_ge)
  moreover have "\<forall>\<^sub>F h in nhds a. F h = (if h \<le> a then g h else f h)"
    unfolding eventually_nhds_metric
  proof (intro exI conjI allI impI)
    show "0 < d" by fact
    fix h assume "dist h a < d"
    then have "F h = (if h < a then g h else f h)" by (simp add: F dist_real_def)
    then show "F h = (if h \<le> a then g h else f h)" using eq by (cases "h = a") auto
  qed
  ultimately show ?thesis by (simp add: isCont_cong)
qed

lemma isCont_T_at_11000: "isCont T_at 11000"
  by (rule isCont_piecewise [where g = "\<lambda>h. 288.15 - 0.0065 * h" and f = "\<lambda>h. 216.65" and d = 1000])
     (auto simp: T_at_eq intro!: continuous_intros)

lemma isCont_T_at_20000: "isCont T_at 20000"
  by (rule isCont_piecewise [where g = "\<lambda>h. 216.65" and f = "\<lambda>h. 216.65 + 0.001 * (h - 20000)" and d = 1000])
     (auto simp: T_at_eq intro!: continuous_intros)

lemma isCont_p_at_11000: "isCont p_at 11000"
proof (rule isCont_piecewise [where d = 1000
      and g = "\<lambda>h. pb ! 0 * ((288.15 - 0.0065 * h) / 288.15) powr (g0 / (R * 0.0065))"
      and f = "\<lambda>h. pb ! 1 * exp (- (g0 * (h - 11000) / (R * 216.65)))"])
  show "continuous (at_left 11000) (\<lambda>h. pb ! 0 * ((288.15 - 0.0065 * h) / 288.15) powr (g0 / (R * 0.0065)))"
    by (intro continuous_intros) simp_all
  show "continuous (at_right 11000) (\<lambda>h. pb ! 1 * exp (- (g0 * (h - 11000) / (R * 216.65))))"
    using gR_pos by (intro continuous_intros) simp_all
  show "pb ! 1 * exp (- (g0 * (11000 - 11000) / (R * 216.65)))
      = pb ! 0 * ((288.15 - 0.0065 * 11000) / 288.15) powr (g0 / (R * 0.0065))"
    unfolding p_low_11000 by simp
  show "(0::real) < 1000" by simp
  show "p_at h = (if h < 11000 then pb ! 0 * ((288.15 - 0.0065 * h) / 288.15) powr (g0 / (R * 0.0065))
                  else pb ! 1 * exp (- (g0 * (h - 11000) / (R * 216.65))))"
    if "\<bar>h - 11000\<bar> < 1000" for h
  proof -
    from that have "h < 20000" by linarith
    then show ?thesis by (simp add: p_at_eq)
  qed
qed

lemma isCont_p_at_20000: "isCont p_at 20000"
proof (rule isCont_piecewise [where d = 1000
      and g = "\<lambda>h. pb ! 1 * exp (- (g0 * (h - 11000) / (R * 216.65)))"
      and f = "\<lambda>h. pb ! 2 * ((216.65 + 0.001 * (h - 20000)) / 216.65) powr (- (g0 / (R * 0.001)))"])
  show "continuous (at_left 20000) (\<lambda>h. pb ! 1 * exp (- (g0 * (h - 11000) / (R * 216.65))))"
    using gR_pos by (intro continuous_intros) simp_all
  show "continuous (at_right 20000)
          (\<lambda>h. pb ! 2 * ((216.65 + 0.001 * (h - 20000)) / 216.65) powr (- (g0 / (R * 0.001))))"
    by (intro continuous_intros) simp_all
  show "pb ! 2 * ((216.65 + 0.001 * (20000 - 20000)) / 216.65) powr (- (g0 / (R * 0.001)))
      = pb ! 1 * exp (- (g0 * (20000 - 11000) / (R * 216.65)))"
    unfolding p_mid_20000 by simp
  show "(0::real) < 1000" by simp
  show "p_at h = (if h < 20000 then pb ! 1 * exp (- (g0 * (h - 11000) / (R * 216.65)))
                  else pb ! 2 * ((216.65 + 0.001 * (h - 20000)) / 216.65) powr (- (g0 / (R * 0.001))))"
    if "\<bar>h - 20000\<bar> < 1000" for h
  proof -
    from that have "\<not> h < 11000" by linarith
    then show ?thesis by (simp add: p_at_eq)
  qed
qed

section \<open>Properties of the atmosphere query\<close>

lemma isa_atmosphere_cases:
  "isa_atmosphere altitude g =
     (if out_of_range altitude g then Inl OutOfRange
      else case altitude of
        Scalar x \<Rightarrow>
          (let h = (if g then R_EARTH * x / (R_EARTH + x) else x)
           in Inr (point_state (if g then x else R_EARTH * h / (R_EARTH - h)) h))
      | Array xs \<Rightarrow>
          (let hs = (if g then map (\<lambda>x. R_EARTH * x / (R_EARTH + x)) xs else xs)
           in Inr \<lparr> geometric_altitude = Array (if g then xs else map (\<lambda>h. R_EARTH * h / (R_EARTH - h)) hs),
                 geopotential_altitude = Array hs,
                 temperature = Array (map T_at hs), pressure = Array (map p_at hs),
                 density = Array (map rho_at hs), speed_of_sound = Array (map a_at hs),
                 dynamic_viscosity = Array (map mu_at hs),
                 kinematic_viscosity = Array (map nu_at hs) \<rparr>))"
  by (cases altitude)
     (auto simp: isa_atmosphere_Scalar isa_atmosphere_Array out_of_range_def geopotential_of_def Let_def)

lemma in_range_not_out: "in_range altitude g \<Longrightarrow> \<not> out_of_range altitude g"
  by (auto simp: in_range_def out_of_range_def)

text \<open>
  Claim C1.  When any element of the geopotential altitude is below 0 or above 32000 the
  query fails as a whole with \<open>OutOfRange\<close>; when every element lies in \<open>[0, 32000]\<close> the
  query returns a state.
\<close>

theorem isa_atmosphere_range:
  "(out_of_range altitude geometric \<longrightarrow> isa_atmosphere altitude geometric = Inl OutOfRange) \<and>
   (in_range altitude geometric \<longrightarrow> (\<exists>s. isa_atmosphere altitude geometric = Inr s))"
  by (cases altitude) (auto simp: isa_atmosphere_cases Let_def dest: in_range_not_out)

theorem isa_atmosphere_range_witness:
  "isa_atmosphere (Array [0, 40000]) False = Inl OutOfRange \<and>
   isa_atmosphere (Scalar (- 1)) True = Inl OutOfRange \<and>
   (\<exists>s. isa_atmosphere (Array [0, 5000, 32000]) False = Inr s)"
  using isa_atmosphere_range [of "Array [0, 40000]" False]
    isa_atmosphere_range [of "Scalar (- 1)" True]
    isa_atmosphere_range [of "Array [0, 5000, 32000]" False]
  by (simp add: out_of_range_def in_range_def geopotential_of_def R_EARTH_def)

text \<open>
  Claim C2.  At geometric altitude 0 the query returns 288.15 K and 101325 Pa, and a
  density within one millionth of 1.225.
\<close>

theorem sea_level_values:
  "\<exists>s d. isa_atmosphere (Scalar 0) True = Inr s \<and> temperature s = Scalar 288.15 \<and>
          pressure s = Scalar 101325 \<and> density s = Scalar d \<and> \<bar>d - 1.225\<bar> < 1 / 10 ^ 6"
proof -
  have T: "T_at 0 = 288.15" by (simp add: T_at_eq)
  have p: "p_at 0 = 101325" by (simp add: p_at_eq pb_eq p0_def)
  have d: "\<bar>rho_at 0 - 1.225\<bar> < 1 / 10 ^ 6"
    unfolding rho_at_def T p by (simp add: R_def)
  show ?thesis
    using d by (simp add: isa_atmosphere_Scalar point_state_def T p R_EARTH_def)
qed

lemma roundtrip_real:
  assumes "R_EARTH + z \<noteq> 0"
  shows "R_EARTH * (R_EARTH * z / (R_EARTH + z)) / (R_EARTH - R_EARTH * z / (R_EARTH + z)) = z"
proof -
  have R: "R_EARTH \<noteq> 0" by (simp add: R_EARTH_def)
  have "R_EARTH - R_EARTH * z / (R_EARTH + z) = R_EARTH * R_EARTH / (R_EARTH + z)"
    using assms by (simp add: field_simps)
  then show ?thesis using assms R by simp
qed

text \<open>
  Claim C4.  For altitudes in \<open>[0, 32000]\<close>, scalar or array, converting to geopotential
  altitude and back gives the altitude again; in exact arithmetic the relative error is 0.
\<close>

theorem altitude_roundtrip:
  assumes "\<forall>z\<in>set (np_asarray a). 0 \<le> z \<and> z \<le> 32000"
  shows "geopotential2geometric (geometric2geopotential a) = a"
proof -
  have nz: "R_EARTH + z \<noteq> 0" if "0 \<le> z" for z
    using that by (simp add: R_EARTH_def)
  show ?thesis
  proof (cases a)
    case (Scalar z)
    with assms have "R_EARTH + z \<noteq> 0" by (simp add: nz)
    from roundtrip_real [OF this] show ?thesis
      unfolding Scalar by (simp only: geometric2geopotential.simps geopotential2geometric.simps)
  next
    case (Array zs)
    with assms have "\<forall>z\<in>set zs. R_EARTH + z \<noteq> 0" by (simp add: nz)
    then have "map ((\<lambda>H. R_EARTH * H / (R_EARTH - H)) \<circ> (\<lambda>z. R_EARTH * z / (R_EARTH + z))) zs = zs"
      by (intro map_idI) (simp add: roundtrip_real del: times_divide_eq_right times_divide_eq_left divide_divide_eq_left divide_divide_eq_right)
    then show ?thesis
      unfolding Array by (simp only: geometric2geopotential.simps geopotential2geometric.simps map_map)
  qed
qed

theorem altitude_roundtrip_witness:
  "geopotential2geometric (geometric2geopotential (Scalar 32000)) = Scalar 32000 \<and>
   geopotential2geometric (geometric2geopotential (Array [0, 5000, 10000])) = Array [0, 5000, 10000]"
  using altitude_roundtrip [of "Scalar 32000"] altitude_roundtrip [of "Array [0, 5000, 10000]"]
  by simp

lemma in_range_Array_nth:
  assumes "in_range (Array xs) g" "i < length xs"
  shows "in_range (Scalar (xs ! i)) g"
  using assms by (auto simp: in_range_def geopotential_of_def split: if_splits)

text \<open>
  Claim C5.  For an in-range array input the query returns fields that are arrays of the
  input's length, and the state at each index is the state the query returns for that
  element alone; for an in-range scalar input every field is a scalar.
\<close>

theorem batched_query_elementwise:
  "(in_range (Array xs) g \<longrightarrow>
      (\<exists>st. isa_atmosphere (Array xs) g = Inr st \<and> state_shape st (Some (length xs)) \<and>
            (\<forall>i<length xs. isa_atmosphere (Scalar (xs ! i)) g = Inr (state_elem st i)))) \<and>
   (in_range (Scalar x) g \<longrightarrow>
      (\<exists>s. isa_atmosphere (Scalar x) g = Inr s \<and> state_shape s None))"
proof (intro conjI impI)
  assume r: "in_range (Array xs) g"
  then have n: "\<not> out_of_range (Array xs) g" by (rule in_range_not_out)
  have "\<not> out_of_range (Scalar (xs ! i)) g" if "i < length xs" for i
    using in_range_Array_nth [OF r that] by (rule in_range_not_out)
  then show "\<exists>st. isa_atmosphere (Array xs) g = Inr st \<and> state_shape st (Some (length xs)) \<and>
            (\<forall>i<length xs. isa_atmosphere (Scalar (xs ! i)) g = Inr (state_elem st i))"
    using n by (simp add: isa_atmosphere_cases Let_def state_shape_def state_elem_def point_state_def)
next
  assume "in_range (Scalar x) g"
  then have "\<not> out_of_range (Scalar x) g" by (rule in_range_not_out)
  then show "\<exists>s. isa_atmosphere (Scalar x) g = Inr s \<and> state_shape s None"
    by (simp add: isa_atmosphere_cases Let_def state_shape_def point_state_def)
qed

theorem batched_query_elementwise_witness:
  "\<exists>st. isa_atmosphere (Array [0, 5000, 10000]) True = Inr st \<and> state_shape st (Some 3) \<and>
        isa_atmosphere (Scalar 0) True = Inr (state_elem st 0) \<and>
        isa_atmosphere (Scalar 5000) True = Inr (state_elem st 1) \<and>
        isa_atmosphere (Scalar 10000) True = Inr (state_elem st 2) \<and>
        state_shape (state_elem st 1) None"
proof -
  have r: "in_range (Array [0, 5000, 10000]) True"
    by (simp add: in_range_def geopotential_of_def R_EARTH_def)
  have r': "in_range (Scalar 5000) True"
    by (simp add: in_range_def geopotential_of_def R_EARTH_def)
  let ?xs = "[0, 5000, 10000] :: real list"
  from batched_query_elementwise [of ?xs True 5000] r r'
  have "\<exists>st. isa_atmosphere (Array ?xs) True = Inr st \<and> state_shape st (Some (length ?xs)) \<and>
          (\<forall>i<length ?xs. isa_atmosphere (Scalar (?xs ! i)) True = Inr (state_elem st i))"
    and "\<exists>s. isa_atmosphere (Scalar 5000) True = Inr s \<and> state_shape s None"
    by blast+
  then obtain st s where st: "isa_atmosphere (Array ?xs) True = Inr st"
      "state_shape st (Some (length ?xs))"
      "\<forall>i<length ?xs. isa_atmosphere (Scalar (?xs ! i)) True = Inr (state_elem st i)"
    and s: "isa_atmosphere (Scalar 5000) True = Inr s" "state_shape s None"
    by blast
  from st(3) have e: "isa_atmosphere (Scalar 0) True = Inr (state_elem st 0)"
      "isa_atmosphere (Scalar 5000) True = Inr (state_elem st 1)"
      "isa_atmosphere (Scalar 10000) True = Inr (state_elem st 2)"
    using spec [OF st(3), of 0] spec [OF st(3), of 1] spec [OF st(3), of 2] by simp_all
  with s have "state_shape (state_elem st 1) None" by simp
  with st e show ?thesis by (simp add: eval_nat_numeral)
qed

lemma g2h_strict_mono:
  assumes "0 \<le> x" "x < y"
  shows "R_EARTH * x / (R_EARTH + x) < R_EARTH * y / (R_EARTH + y)"
proof -
  have "0 < R_EARTH + x" "0 < R_EARTH + y" using assms by (simp_all add: R_EARTH_def)
  moreover have "0 < R_EARTH" by (simp add: R_EARTH_def)
  ultimately show ?thesis using assms
    by (simp add: divide_simps) (simp add: algebra_simps)
qed

text \<open>
  Exact arithmetic.  Over the reals the pressure the query returns is strictly decreasing:
  for two in-range altitudes \<open>a1 < a2\<close> of the same kind (both geometric or both
  geopotential) the pressure at \<open>a2\<close> is strictly below the pressure at \<open>a1\<close>.  The rounded
  results are treated in the last section.
\<close>

theorem pressure_strictly_decreasing:
  assumes "in_range (Scalar a1) g" "in_range (Scalar a2) g" "a1 < a2"
  shows "\<exists>s1 s2 p1 p2. isa_atmosphere (Scalar a1) g = Inr s1 \<and> isa_atmosphere (Scalar a2) g = Inr s2 \<and>
           pressure s1 = Scalar p1 \<and> pressure s2 = Scalar p2 \<and> p2 < p1"
proof -
  define h1 where "h1 = (if g then R_EARTH * a1 / (R_EARTH + a1) else a1)"
  define h2 where "h2 = (if g then R_EARTH * a2 / (R_EARTH + a2) else a2)"
  have n: "\<not> out_of_range (Scalar a1) g" "\<not> out_of_range (Scalar a2) g"
    using assms by (simp_all add: in_range_not_out)
  have r: "0 \<le> h1" "h2 \<le> 32000"
    using assms by (auto simp: in_range_def geopotential_of_def h1_def h2_def)
  have "h1 < h2"
  proof (cases g)
    case False
    with assms show ?thesis by (simp add: h1_def h2_def)
  next
    case True
    have "0 \<le> a1"
    proof (rule ccontr)
      assume "\<not> 0 \<le> a1"
      then have neg: "a1 < 0" by simp
      from assms True have a: "a1 \<noteq> - R_EARTH" "0 \<le> R_EARTH * a1 / (R_EARTH + a1)" "R_EARTH * a1 / (R_EARTH + a1) \<le> 32000"
        by (auto simp: in_range_def geopotential_of_def)
      show False
      proof (cases "0 < R_EARTH + a1")
        case True
        with neg have "R_EARTH * a1 / (R_EARTH + a1) < 0"
          by (simp add: R_EARTH_def divide_neg_pos mult_pos_neg)
        with a show False by simp
      next
        case False
        with a have lt: "R_EARTH + a1 < 0" by simp
        then have "R_EARTH * a1 / (R_EARTH + a1) > 32000"
          by (simp add: R_EARTH_def field_simps)
        with a show False by simp
      qed
    qed
    with assms True show ?thesis by (simp add: h1_def h2_def g2h_strict_mono)
  qed
  then have "p_at h2 < p_at h1" using r by (simp add: p_at_strict_antimono)
  then show ?thesis
    using n by (simp add: isa_atmosphere_cases Let_def point_state_def h1_def h2_def)
qed

theorem pressure_strictly_decreasing_witness:
  "\<exists>s1 s2 p1 p2. isa_atmosphere (Scalar 0) True = Inr s1 \<and> isa_atmosphere (Scalar 32000) True = Inr s2 \<and>
           pressure s1 = Scalar p1 \<and> pressure s2 = Scalar p2 \<and> p2 < p1"
  using pressure_strictly_decreasing [of 0 True 32000]
  by (simp add: in_range_def geopotential_of_def R_EARTH_def)

lemma isCont_eps:
  fixes f :: "real \<Rightarrow> real"
  assumes "isCont f b" "0 < e"
  shows "\<exists>d>0. \<forall>h. \<bar>h - b\<bar> < d \<longrightarrow> \<bar>f h - f b\<bar> < e"
proof -
  from assms obtain s where s: "0 < s" "\<And>x. x \<noteq> b \<Longrightarrow> \<bar>x - b\<bar> < s \<Longrightarrow> \<bar>f x - f b\<bar> < e"
    unfolding isCont_def LIM_def dist_real_def by blast
  have "\<bar>f h - f b\<bar> < e" if "\<bar>h - b\<bar> < s" for h
    using s(2) [of h] that assms(2) by (cases "h = b") simp_all
  with s(1) show ?thesis by blast
qed

lemma boundary_close:
  assumes b: "b = 11000 \<or> b = 20000" and e: "0 < \<epsilon>"
  shows "\<exists>\<delta>>0. \<forall>h. \<bar>h - b\<bar> < \<delta> \<longrightarrow>
           0 \<le> h \<and> h \<le> 32000 \<and> \<bar>T_at h - T_at b\<bar> < \<epsilon> * \<bar>T_at b\<bar> \<and> \<bar>p_at h - p_at b\<bar> < \<epsilon> * \<bar>p_at b\<bar>"
proof -
  have r: "0 \<le> b" "b \<le> 32000" using b by auto
  have cT: "isCont T_at b" and cp: "isCont p_at b"
    using b isCont_T_at_11000 isCont_T_at_20000 isCont_p_at_11000 isCont_p_at_20000 by auto
  have "0 < \<epsilon> * \<bar>T_at b\<bar>" "0 < \<epsilon> * \<bar>p_at b\<bar>"
    using e T_at_pos [OF r] p_at_pos [OF r] by simp_all
  then obtain d1 d2 where d1: "0 < d1" "\<And>h. \<bar>h - b\<bar> < d1 \<Longrightarrow> \<bar>T_at h - T_at b\<bar> < \<epsilon> * \<bar>T_at b\<bar>"
    and d2: "0 < d2" "\<And>h. \<bar>h - b\<bar> < d2 \<Longrightarrow> \<bar>p_at h - p_at b\<bar> < \<epsilon> * \<bar>p_at b\<bar>"
    using isCont_eps [OF cT, of "\<epsilon> * \<bar>T_at b\<bar>"] isCont_eps [OF cp, of "\<epsilon> * \<bar>p_at b\<bar>"] by blast
  let ?d = "min (min d1 d2) 1000"
  have "0 < ?d" using d1 d2 by simp
  moreover have "0 \<le> h \<and> h \<le> 32000 \<and> \<bar>T_at h - T_at b\<bar> < \<epsilon> * \<bar>T_at b\<bar> \<and> \<bar>p_at h - p_at b\<bar> < \<epsilon> * \<bar>p_at b\<bar>"
    if "\<bar>h - b\<bar> < ?d" for h
  proof -
    from that have h: "\<bar>h - b\<bar> < d1" "\<bar>h - b\<bar> < d2" "\<bar>h - b\<bar> < 1000" by simp_all
    from h(3) b have "0 \<le> h" "h \<le> 32000" by linarith+
    with d1(2) [OF h(1)] d2(2) [OF h(2)] show ?thesis by simp
  qed
  ultimately show ?thesis by blast
qed

text \<open>
  Claim C3.  The base temperature and pressure of layers 1 and 2 are the previous layer's
  formula evaluated at the boundary, and the temperature and pressure the query returns are
  continuous at 11000 m and at 20000 m: for every relative tolerance \<open>\<epsilon> > 0\<close> (in
  particular one millionth) all queries close enough to the boundary, on either side, differ
  from the query at the boundary by less than \<open>\<epsilon>\<close> relative.
\<close>

theorem layer_boundaries_continuous:
  "isa_gradient [11000] (Hb ! 0) (Tb ! 0) (pb ! 0) (lapserate ! 0) = ([Tb ! 1], [pb ! 1]) \<and>
   isa_isothermal [20000] (Hb ! 1) (Tb ! 1) (pb ! 1) = ([Tb ! 2], [pb ! 2]) \<and>
   (\<forall>b\<in>{11000, 20000}. \<forall>\<epsilon>>0. \<exists>\<delta>>0. \<forall>h. \<bar>h - b\<bar> < \<delta> \<longrightarrow>
      (\<exists>s sb t p tb pb'.
          isa_atmosphere (Scalar h) False = Inr s \<and> isa_atmosphere (Scalar b) False = Inr sb \<and>
          temperature s = Scalar t \<and> pressure s = Scalar p \<and>
          temperature sb = Scalar tb \<and> pressure sb = Scalar pb' \<and>
          \<bar>t - tb\<bar> < \<epsilon> * \<bar>tb\<bar> \<and> \<bar>p - pb'\<bar> < \<epsilon> * \<bar>pb'\<bar>))"
proof (intro conjI ballI allI impI)
  show "isa_gradient [11000] (Hb ! 0) (Tb ! 0) (pb ! 0) (lapserate ! 0) = ([Tb ! 1], [pb ! 1])"
    by (simp add: isa_gradient_map Tb_eq pb_eq Hb_def lapserate_def)
  show "isa_isothermal [20000] (Hb ! 1) (Tb ! 1) (pb ! 1) = ([Tb ! 2], [pb ! 2])"
    by (simp add: isa_isothermal_map Tb_eq pb_eq Hb_def)
next
  fix b \<epsilon> :: real
  assume b: "b \<in> {11000, 20000}" and e: "0 < \<epsilon>"
  then have b': "b = 11000 \<or> b = 20000" by simp
  from boundary_close [OF b' e] obtain \<delta> where d: "0 < \<delta>"
    and c: "\<And>h. \<bar>h - b\<bar> < \<delta> \<Longrightarrow>
       0 \<le> h \<and> h \<le> 32000 \<and> \<bar>T_at h - T_at b\<bar> < \<epsilon> * \<bar>T_at b\<bar> \<and> \<bar>p_at h - p_at b\<bar> < \<epsilon> * \<bar>p_at b\<bar>"
    by blast
  have nb: "\<not> out_of_range (Scalar b) False"
    using b' by (auto simp: out_of_range_def geopotential_of_def)
  show "\<exists>\<delta>>0. \<forall>h. \<bar>h - b\<bar> < \<delta> \<longrightarrow>
      (\<exists>s sb t p tb pb'.
          isa_atmosphere (Scalar h) False = Inr s \<and> isa_atmosphere (Scalar b) False = Inr sb \<and>
          temperature s = Scalar t \<and> pressure s = Scalar p \<and>
          temperature sb = Scalar tb \<and> pressure sb = Scalar pb' \<and>
          \<bar>t - tb\<bar> < \<epsilon> * \<bar>tb\<bar> \<and> \<bar>p - pb'\<bar> < \<epsilon> * \<bar>pb'\<bar>)"
  proof (intro exI conjI allI impI)
    show "0 < \<delta>" by fact
    fix h assume "\<bar>h - b\<bar> < \<delta>"
    from c [OF this] have h: "0 \<le> h" "h \<le> 32000" "\<bar>T_at h - T_at b\<bar> < \<epsilon> * \<bar>T_at b\<bar>"
      "\<bar>p_at h - p_at b\<bar> < \<epsilon> * \<bar>p_at b\<bar>" by simp_all
    then have nh: "\<not> out_of_range (Scalar h) False"
      by (auto simp: out_of_range_def geopotential_of_def)
    show "isa_atmosphere (Scalar h) False = Inr (point_state (R_EARTH * h / (R_EARTH - h)) h)"
      using nh by (simp add: isa_atmosphere_cases)
    show "isa_atmosphere (Scalar b) False = Inr (point_state (R_EARTH * b / (R_EARTH - b)) b)"
      using nb by (simp add: isa_atmosphere_cases)
    show "temperature (point_state (R_EARTH * h / (R_EARTH - h)) h) = Scalar (T_at h)"
      "pressure (point_state (R_EARTH * h / (R_EARTH - h)) h) = Scalar (p_at h)"
      "temperature (point_state (R_EARTH * b / (R_EARTH - b)) b) = Scalar (T_at b)"
      "pressure (point_state (R_EARTH * b / (R_EARTH - b)) b) = Scalar (p_at b)"
      by (simp_all add: point_state_def)
    show "\<bar>T_at h - T_at b\<bar> < \<epsilon> * \<bar>T_at b\<bar>" "\<bar>p_at h - p_at b\<bar> < \<epsilon> * \<bar>p_at b\<bar>" by fact+
  qed
qed

theorem layer_boundaries_continuous_witness:
  "isa_gradient [11000] (Hb ! 0) (Tb ! 0) (pb ! 0) (lapserate ! 0) = ([Tb ! 1], [pb ! 1]) \<and>
   (\<exists>s t p. isa_atmosphere (Scalar 20000) False = Inr s \<and>
            temperature s = Scalar t \<and> pressure s = Scalar p)"
proof -
  let ?P = "\<lambda>b \<epsilon> h. \<exists>s sb t p tb pb'.
          isa_atmosphere (Scalar h) False = Inr s \<and> isa_atmosphere (Scalar b) False = Inr sb \<and>
          temperature s = Scalar t \<and> pressure s = Scalar p \<and>
          temperature sb = Scalar tb \<and> pressure sb = Scalar pb' \<and>
          \<bar>t - tb\<bar> < \<epsilon> * \<bar>tb\<bar> \<and> \<bar>p - pb'\<bar> < \<epsilon> * \<bar>pb'\<bar>"
  note main = layer_boundaries_continuous
  from main have tab: "isa_gradient [11000] (Hb ! 0) (Tb ! 0) (pb ! 0) (lapserate ! 0) = ([Tb ! 1], [pb ! 1])"
    by (rule conjunct1)
  from main [THEN conjunct2, THEN conjunct2]
  have "\<forall>b\<in>{11000, 20000}. \<forall>\<epsilon>>0. \<exists>\<delta>>0. \<forall>h. \<bar>h - b\<bar> < \<delta> \<longrightarrow> ?P b \<epsilon> h" .
  then have "\<forall>\<epsilon>>0. \<exists>\<delta>>0. \<forall>h. \<bar>h - 20000\<bar> < \<delta> \<longrightarrow> ?P 20000 \<epsilon> h"
    by (rule bspec) simp
  then have "\<exists>\<delta>>0. \<forall>h. \<bar>h - 20000\<bar> < \<delta> \<longrightarrow> ?P 20000 (1 / 10 ^ 6) h"
    by (elim allE [of _ "1 / 10 ^ 6"]) simp
  then obtain \<delta> :: real where "0 < \<delta>" and "\<forall>h. \<bar>h - 20000\<bar> < \<delta> \<longrightarrow> ?P 20000 (1 / 10 ^ 6) h"
    by blast
  then have "?P 20000 (1 / 10 ^ 6) 20000" by simp
  then have "\<exists>s t p. isa_atmosphere (Scalar 20000) False = Inr s \<and>
            temperature s = Scalar t \<and> pressure s = Scalar p"
    by blast
  with tab show ?thesis by (rule conjI)
qed

section \<open>Properties of the aerodynamic state\<close>

lemma bindE_simps [simp]: "bindE (Inr x) f = f x" "bindE (Inl e) f = Inl e"
  by (simp_all add: bindE_def)

lemma sea_level_state: "sea_level_atmosphere = point_state 0 0"
  by (simp add: sea_level_atmosphere_def isa_atmosphere_Scalar R_EARTH_def)

lemma sea_level_query: "isa_atmosphere (Scalar 0) True = Inr sea_level_atmosphere"
  by (simp add: sea_level_state isa_atmosphere_Scalar R_EARTH_def)

lemma rho_at_0: "rho_at 0 = rho0"
  by (simp add: rho_at_def T_at_eq p_at_eq pb_eq rho0_def T0_def)

lemma rho0_pos: "0 < rho0"
  by (simp add: rho0_def p0_def R_def T0_def)

lemma sea_level_fields:
  "density sea_level_atmosphere = Scalar rho0"
  "speed_of_sound sea_level_atmosphere = Scalar (a_at 0)"
  "dynamic_viscosity sea_level_atmosphere = Scalar (mu_at 0)"
  "pressure sea_level_atmosphere = Scalar (p_at 0)"
  by (simp_all add: sea_level_state point_state_def rho_at_0)

lemma np_op_if:
  "np_op f a b = (if broadcastable (shape a) (shape b) then Inr (np_val f a b) else Inl ShapeMismatch)"
  by (cases a; cases b) (auto simp: broadcastable_def np_val_def)

lemma shape_np_val:
  "broadcastable (shape a) (shape b) \<Longrightarrow> shape (np_val f a b) = bshape (shape a) (shape b)"
  by (cases a; cases b) (auto simp: broadcastable_def bshape_def np_val_def)

lemma shape_np_map [simp]: "shape (np_map f a) = shape a"
  by (cases a) simp_all

lemma np_op_error: "np_op f a b = Inl e \<Longrightarrow> e = ShapeMismatch"
  by (simp add: np_op_if split: if_splits)

lemma bindE_Inl: "bindE m f = Inl e \<Longrightarrow> m = Inl e \<or> (\<exists>x. m = Inr x \<and> f x = Inl e)"
  by (cases m) simp_all

lemma np_array_error: "np_array xs = Inl e \<Longrightarrow> e = HigherRank"
  by (simp add: np_array_def split: if_splits)

lemma atmosphere_fields_error: "atmosphere_fields a = Inl e \<Longrightarrow> e = HigherRank"
  by (cases a) (auto dest!: bindE_Inl np_array_error)

lemma py_div_error: "py_div a b = Inl e \<Longrightarrow> e = ShapeMismatch \<or> e = ZeroDivisionError"
  by (cases a; cases b) (auto split: if_splits)

lemma tas_eas_error:
  "tas_eas br sp rho sos r0 = Inl e \<Longrightarrow> e = ShapeMismatch \<or> e = ZeroDivisionError"
  by (cases br) (auto simp: Let_def dest!: bindE_Inl dest: np_op_error py_div_error)

lemma aerodynamic_state_error:
  assumes "aerodynamic_state speed cl speed_type atm = Inl e"
  shows "e = InvalidArgument \<and> speed_type \<notin> allowed_speed_types \<or>
         e \<in> {ShapeMismatch, HigherRank, ZeroDivisionError} \<and>
           speed_type \<in> allowed_speed_types"
proof (cases "speed_type \<in> allowed_speed_types")
  case False
  with assms show ?thesis by (simp add: aerodynamic_state_def)
next
  case True
  with assms have "e = ShapeMismatch \<or> e = HigherRank \<or> e = ZeroDivisionError"
    unfolding aerodynamic_state_def Let_def
    by (auto dest!: bindE_Inl dest: np_op_error tas_eas_error atmosphere_fields_error)
  with True show ?thesis by simp
qed

text \<open>
  Claim C8.  A \<open>speed_type\<close> outside \<open>TAS\<close>, \<open>EAS\<close>, \<open>mach\<close> makes the call fail with
  \<open>InvalidArgument\<close>; a valid one never does, and then the \<open>if\<close>/\<open>elif\<close> chain takes one of
  its first three branches, so the zero-valued fallback branch is never reached.
\<close>

theorem speed_type_validation:
  "(speed_type \<notin> allowed_speed_types \<longrightarrow>
      aerodynamic_state speed cl speed_type atm = Inl InvalidArgument) \<and>
   (speed_type \<in> allowed_speed_types \<longrightarrow>
      aerodynamic_state speed cl speed_type atm \<noteq> Inl InvalidArgument \<and>
      speed_branch speed_type \<noteq> fallback_branch)"
proof (intro conjI impI)
  assume "speed_type \<notin> allowed_speed_types"
  then show "aerodynamic_state speed cl speed_type atm = Inl InvalidArgument"
    by (simp add: aerodynamic_state_def)
next
  assume v: "speed_type \<in> allowed_speed_types"
  show "aerodynamic_state speed cl speed_type atm \<noteq> Inl InvalidArgument"
  proof
    assume "aerodynamic_state speed cl speed_type atm = Inl InvalidArgument"
    from aerodynamic_state_error [OF this] v show False by simp
  qed
  from v show "speed_branch speed_type \<noteq> fallback_branch"
    by (auto simp: allowed_speed_types_def speed_branch_def)
qed

theorem speed_type_validation_witness:
  "aerodynamic_state (Scalar 100) (Scalar 1) ''tas'' None = Inl InvalidArgument \<and>
   aerodynamic_state (Scalar 100) (Scalar 1) ''mach'' None \<noteq> Inl InvalidArgument \<and>
   speed_branch ''mach'' \<noteq> fallback_branch"
  using speed_type_validation [of "''tas''" "Scalar 100" "Scalar 1" None]
    speed_type_validation [of "''mach''" "Scalar 100" "Scalar 1" None]
  by (simp add: allowed_speed_types_def)

lemma np_op_Scalar_right: "np_op f a (Scalar y) = Inr (np_map (\<lambda>x. f x y) a)"
  by (cases a) simp_all

lemma np_op_Scalar_left: "np_op f (Scalar x) b = Inr (np_map (f x) b)"
  by (cases b) simp_all

lemma np_map_id: "(\<And>x. f x = x) \<Longrightarrow> np_map f a = a"
  by (cases a) (simp_all add: map_idI)

lemma speed_branch_simps:
  "speed_branch ''TAS'' = TAS_branch" "speed_branch ''EAS'' = EAS_branch"
  "speed_branch ''mach'' = mach_branch"
  by (simp_all add: speed_branch_def)

lemma allowed_simps:
  "''TAS'' \<in> allowed_speed_types" "''EAS'' \<in> allowed_speed_types" "''mach'' \<in> allowed_speed_types"
  by (simp_all add: allowed_speed_types_def)

text \<open>
  Claim C10.  Without an atmosphere argument the call computes with
  \<open>sea_level_atmosphere\<close>, the state the query returns at altitude 0; for a \<open>TAS\<close> input the
  returned \<open>EAS\<close> (and \<open>TAS\<close>) is then the input speed.  The call returns whenever speed and
  characteristic length can be broadcast together.
\<close>

theorem default_atmosphere_is_sea_level:
  "aerodynamic_state speed cl speed_type None =
     aerodynamic_state speed cl speed_type (Some (State sea_level_atmosphere)) \<and>
   isa_atmosphere (Scalar 0) True = Inr sea_level_atmosphere \<and>
   (broadcastable (shape speed) (shape cl) \<longrightarrow>
      (\<exists>s. aerodynamic_state speed cl ''TAS'' None = Inr s \<and> TAS s = speed \<and> EAS s = speed))"
proof (intro conjI impI)
  show "aerodynamic_state speed cl speed_type None =
     aerodynamic_state speed cl speed_type (Some (State sea_level_atmosphere))"
    by (simp only: aerodynamic_state_def option.case)
  show "isa_atmosphere (Scalar 0) True = Inr sea_level_atmosphere"
    by (rule sea_level_query)
next
  assume b: "broadcastable (shape speed) (shape cl)"
  have one: "rho0 / rho0 = 1" using rho0_pos by simp
  have te: "tas_eas TAS_branch speed (Scalar rho0) (Scalar (a_at 0)) (Scalar rho0) = Inr (speed, speed)"
    using rho0_pos by (simp add: Let_def np_op_Scalar_right np_map_id)
  show "\<exists>s. aerodynamic_state speed cl ''TAS'' None = Inr s \<and> TAS s = speed \<and> EAS s = speed"
    unfolding aerodynamic_state_def Let_def
    by (simp add: allowed_simps speed_branch_simps sea_level_fields te np_op_Scalar_right
        np_op_Scalar_left np_op_if [of _ _ cl] b del: tas_eas.simps)
qed

theorem default_atmosphere_is_sea_level_witness:
  "\<exists>s. aerodynamic_state (Array [100, 200]) (Scalar 1) ''TAS'' None = Inr s \<and>
        TAS s = Array [100, 200] \<and> EAS s = Array [100, 200]"
  using default_atmosphere_is_sea_level [of "Array [100, 200]" "Scalar 1" "''TAS''", THEN conjunct2, THEN conjunct2]
  by (simp add: broadcastable_def)

text \<open>
  Claim C9.  The claim is what the documentation of \<open>aerodynamic_state\<close> promises ("For
  array inputs, each field is a NumPy array of matching shape"), and the code does not keep
  it: with a scalar speed, the default atmosphere and an array of three characteristic
  lengths the call returns, and only \<open>reynolds\<close> has the array's shape; the other five
  fields are scalars.
\<close>

theorem shape_rule_failing_input:
  "map_sum id field_shapes (aerodynamic_state (Scalar 100) (Array [1, 2, 3]) ''TAS'' None) =
     Inr [None, None, None, Some 3, None, None]"
proof -
  have te: "tas_eas TAS_branch (Scalar 100) (Scalar rho0) (Scalar (a_at 0)) (Scalar rho0)
            = Inr (Scalar 100, Scalar 100)"
    using rho0_pos by (simp add: Let_def)
  show ?thesis
    unfolding aerodynamic_state_def Let_def field_shapes_def
    by (simp add: allowed_simps speed_branch_simps sea_level_fields te del: tas_eas.simps)
qed

section \<open>Rounding to double precision\<close>

lemma round_even_err: "\<bar>of_int (round_even y) - y\<bar> \<le> 1 / 2"
proof -
  have "of_int \<lfloor>y\<rfloor> \<le> y" "y < of_int \<lfloor>y\<rfloor> + 1" by linarith+
  then show ?thesis by (auto simp: round_even_def Let_def)
qed

lemma round_even_unique:
  assumes "\<bar>y - of_int m\<bar> < 1 / 2"
  shows "round_even y = m"
proof -
  have a: "of_int \<lfloor>y\<rfloor> \<le> y" "y < of_int \<lfloor>y\<rfloor> + 1" by linarith+
  from round_even_err [of y] assms
  have "\<bar>of_int (round_even y) - (of_int m :: real)\<bar> < 1" by linarith
  then have "\<bar>of_int (round_even y - m) :: real\<bar> < 1" by simp
  then have "\<bar>round_even y - m\<bar> < 1" by (metis of_int_abs of_int_less_1_iff)
  then show ?thesis by simp
qed

lemma fl_0 [simp]: "fl 0 = 0"
  by (simp add: fl_def)

lemma fl_eqI:
  assumes "2 powr of_int k \<le> \<bar>x\<bar>" "\<bar>x\<bar> < 2 powr (of_int k + 1)"
    and "\<bar>x / 2 powr (of_int k - 52) - of_int m\<bar> < 1 / 2"
  shows "fl x = of_int m * 2 powr (of_int k - 52)"
proof -
  have "0 < (2::real) powr of_int k" by simp
  with assms(1) have x: "x \<noteq> 0" by auto
  then have "\<lfloor>log 2 \<bar>x\<bar>\<rfloor> = k"
    using assms(1,2) by (simp add: floor_log_eq_powr_iff)
  with x show ?thesis by (simp add: fl_def Let_def round_even_unique [OF assms(3)])
qed

lemma fl_err: "\<bar>fl x - x\<bar> \<le> \<bar>x\<bar> / 2 ^ 53"
proof (cases "x = 0")
  case True then show ?thesis by simp
next
  case False
  define k where "k = \<lfloor>log 2 \<bar>x\<bar>\<rfloor>"
  define u :: real where "u = 2 powr (of_int k - 52)"
  have u: "0 < u" by (simp add: u_def)
  from False have "2 powr of_int k \<le> \<bar>x\<bar>"
    using floor_log_eq_powr_iff [of "\<bar>x\<bar>" 2 k] by (simp add: k_def)
  then have "u * 2 ^ 52 \<le> \<bar>x\<bar>" by (simp add: u_def powr_diff)
  then have ux: "u / 2 \<le> \<bar>x\<bar> / 2 ^ 53" by simp
  have "fl x = of_int (round_even (x / u)) * u"
    using False by (simp add: fl_def Let_def k_def u_def)
  then have "fl x - x = (of_int (round_even (x / u)) - x / u) * u"
    using u by (simp add: field_simps)
  then have "\<bar>fl x - x\<bar> = \<bar>of_int (round_even (x / u)) - x / u\<bar> * u"
    using u by (simp add: abs_mult)
  also have "\<dots> \<le> 1 / 2 * u"
    using round_even_err [of "x / u"] u by (intro mult_right_mono) simp_all
  finally show ?thesis using ux by simp
qed

lemma fl_bounds:
  assumes "0 \<le> x"
  shows "(1 - 1 / 2 ^ 53) * x \<le> fl x" "fl x \<le> (1 + 1 / 2 ^ 53) * x"
proof -
  from fl_err [of x] assms have "\<bar>fl x - x\<bar> \<le> x / 2 ^ 53" by simp
  then have "x - x / 2 ^ 53 \<le> fl x" "fl x \<le> x + x / 2 ^ 53" by linarith+
  then show "(1 - 1 / 2 ^ 53) * x \<le> fl x" "fl x \<le> (1 + 1 / 2 ^ 53) * x"
    by (simp_all add: algebra_simps)
qed

lemma fl_pos: "0 < x \<Longrightarrow> 0 < fl x"
proof -
  assume x: "0 < x"
  then have "0 < (1 - 1 / 2 ^ 53) * x" by simp
  with fl_bounds(1) [of x] x show ?thesis by linarith
qed

lemma rho0_fl_pos: "0 < rho0_fl"
proof -
  have "0 < fl R" "0 < fl T0" by (simp_all add: fl_pos R_def T0_def)
  then have "0 < fl (fl R * fl T0)" by (simp add: fl_pos)
  then show ?thesis by (simp add: rho0_fl_def fl_pos p0_def)
qed

lemma fl_eqI2:
  assumes u: "u = 2 powr (of_int k - 52)"
    and lo: "2 ^ 52 * u \<le> \<bar>x\<bar>" and hi: "\<bar>x\<bar> < 2 ^ 53 * u"
    and m: "\<bar>x - of_int m * u\<bar> < u / 2"
  shows "fl x = of_int m * u"
proof -
  have up: "0 < u" by (simp add: u)
  have k: "2 powr of_int k = 2 ^ 52 * u" "2 powr (of_int k + 1) = 2 ^ 53 * u"
    by (simp_all add: u powr_diff powr_add)
  have "x / u - of_int m = (x - of_int m * u) / u" using up by (simp add: field_simps)
  then have "\<bar>x / u - of_int m\<bar> = \<bar>x - of_int m * u\<bar> / u" using up by simp
  also have "\<dots> < 1 / 2" using m up by (simp add: field_simps)
  finally have "\<bar>x / 2 powr (of_int k - 52) - of_int m\<bar> < 1 / 2" by (simp add: u)
  from fl_eqI [OF _ _ this] lo hi show ?thesis by (simp add: k u)
qed

lemma near_multiple:
  fixes s u m :: real
  assumes "(m - 1 / 2) * u < s" "s < (m + 1 / 2) * u"
  shows "\<bar>s - m * u\<bar> < u / 2"
proof -
  from assms have "m * u - u / 2 < s" "s < m * u + u / 2" by (simp_all add: algebra_simps)
  then show ?thesis by linarith
qed

lemma fl_2: "fl 2 = 2"
proof -
  have "fl 2 = of_int (2 ^ 52) * (1 / 2 ^ 51)"
    by (rule fl_eqI2 [where k = 1]) (simp_all add: powr_neg_numeral)
  then show ?thesis by simp
qed

lemma fl_half: "fl (1 / 2) = 1 / 2"
proof -
  have "fl (1 / 2) = of_int (2 ^ 52) * (1 / 2 ^ 53)"
    by (rule fl_eqI2 [where k = "- 1"]) (simp_all add: powr_neg_numeral)
  then show ?thesis by simp
qed

lemma sqrt2_bounds:
  "(6369051672525773 - 1 / 2) / 2 ^ 52 < sqrt 2" "sqrt 2 < (6369051672525773 + 1 / 2) / 2 ^ 52"
  by (rule real_less_rsqrt, simp add: power2_eq_square) (rule real_less_lsqrt, simp_all add: power2_eq_square)

lemma sqrt2_range: "1 \<le> sqrt 2" "sqrt 2 < 2"
  by (simp, rule real_less_lsqrt) simp_all

lemma fl_sqrt2: "fl (sqrt 2) = 6369051672525773 / 2 ^ 52"
proof -
  have "fl (sqrt 2) = of_int 6369051672525773 * (1 / 2 ^ 52)"
  proof (rule fl_eqI2 [where k = 0])
    show "1 / 2 ^ 52 = (2::real) powr (of_int 0 - 52)" by (simp add: powr_neg_numeral)
    show "2 ^ 52 * (1 / 2 ^ 52) \<le> \<bar>sqrt 2\<bar>" using sqrt2_range by simp
    show "\<bar>sqrt 2\<bar> < 2 ^ 53 * (1 / 2 ^ 52)" using sqrt2_range by simp
    have "(6369051672525773 - 1 / 2) * (1 / 2 ^ 52) < sqrt 2"
      "sqrt 2 < (6369051672525773 + 1 / 2) * (1 / 2 ^ 52)"
      using sqrt2_bounds by simp_all
    from near_multiple [OF this]
    show "\<bar>sqrt 2 - of_int 6369051672525773 * (1 / 2 ^ 52)\<bar> < 1 / 2 ^ 52 / 2"
      by (simp only: of_int_numeral)
  qed
  then show ?thesis by simp
qed

lemma sqrt_half: "sqrt (1 / 2) = sqrt 2 / 2"
  by (rule real_sqrt_unique) (simp_all add: power2_eq_square)

lemma fl_sqrt_half: "fl (sqrt (1 / 2)) = 6369051672525773 / 2 ^ 53"
proof -
  have "fl (sqrt 2 / 2) = of_int 6369051672525773 * (1 / 2 ^ 53)"
  proof (rule fl_eqI2 [where k = "- 1"])
    show "1 / 2 ^ 53 = (2::real) powr (of_int (- 1) - 52)" by (simp add: powr_neg_numeral)
    show "2 ^ 52 * (1 / 2 ^ 53) \<le> \<bar>sqrt 2 / 2\<bar>" using sqrt2_range by simp
    show "\<bar>sqrt 2 / 2\<bar> < 2 ^ 53 * (1 / 2 ^ 53)" using sqrt2_range by simp
    have "(6369051672525773 - 1 / 2) * (1 / 2 ^ 53) < sqrt 2 / 2"
      "sqrt 2 / 2 < (6369051672525773 + 1 / 2) * (1 / 2 ^ 53)"
      using sqrt2_bounds by simp_all
    from near_multiple [OF this]
    show "\<bar>sqrt 2 / 2 - of_int 6369051672525773 * (1 / 2 ^ 53)\<bar> < 1 / 2 ^ 53 / 2"
      by (simp only: of_int_numeral)
  qed
  then show ?thesis by (simp add: sqrt_half)
qed

lemma fl_eas: "fl (2 ^ 34 * (6369051672525773 / 2 ^ 52)) = 6369051672525773 / 2 ^ 18"
proof -
  have "fl (2 ^ 34 * (6369051672525773 / 2 ^ 52)) = of_int 6369051672525773 * (1 / 2 ^ 18)"
    by (rule fl_eqI2 [where k = 34]) (simp_all add: powr_neg_numeral)
  then show ?thesis by simp
qed

lemma fl_tas:
  "fl (6369051672525773 / 2 ^ 18 * (6369051672525773 / 2 ^ 53)) = 2 ^ 34 + 1 / 2 ^ 18"
proof -
  have "fl (6369051672525773 / 2 ^ 18 * (6369051672525773 / 2 ^ 53))
        = of_int (2 ^ 52 + 1) * (1 / 2 ^ 18)"
    by (rule fl_eqI2 [where k = 34]) (simp_all add: powr_neg_numeral)
  then show ?thesis by simp
qed

text \<open>
  Claim C7, as stated, fails in doubles.  With a true airspeed of \<open>2 ^ 34\<close> m/s at twice the
  sea-level density the \<open>TAS\<close> branch returns the equivalent airspeed
  \<open>6369051672525773 / 2 ^ 18\<close>, and the \<open>EAS\<close> branch turns that into \<open>2 ^ 34 + 1 / 2 ^ 18\<close>: the
  round trip misses the input by about \<open>3.8e-6\<close>, more than one millionth.
\<close>

theorem tas_roundtrip_counterexample:
  "tas_eas_fl TAS_branch (2 ^ 34) (2 * rho0_fl) 340 rho0_fl =
     Inr (2 ^ 34, 6369051672525773 / 2 ^ 18) \<and>
   tas_eas_fl EAS_branch (6369051672525773 / 2 ^ 18) (2 * rho0_fl) 340 rho0_fl =
     Inr (2 ^ 34 + 1 / 2 ^ 18, 6369051672525773 / 2 ^ 18) \<and>
   1 / 10 ^ 6 < \<bar>(2 ^ 34 + 1 / 2 ^ 18) - 2 ^ 34 :: real\<bar>"
proof (intro conjI)
  have r: "rho0_fl \<noteq> 0" "2 * rho0_fl \<noteq> 0" using rho0_fl_pos by simp_all
  then have q: "2 * rho0_fl / rho0_fl = 2" "rho0_fl / (2 * rho0_fl) = 1 / 2" by simp_all
  show "tas_eas_fl TAS_branch (2 ^ 34) (2 * rho0_fl) 340 rho0_fl =
     Inr (2 ^ 34, 6369051672525773 / 2 ^ 18)"
    by (simp only: tas_eas_fl.simps Let_def r if_False q fl_2 fl_sqrt2 fl_eas)
  show "tas_eas_fl EAS_branch (6369051672525773 / 2 ^ 18) (2 * rho0_fl) 340 rho0_fl =
     Inr (2 ^ 34 + 1 / 2 ^ 18, 6369051672525773 / 2 ^ 18)"
    by (simp only: tas_eas_fl.simps Let_def r if_False q fl_half fl_sqrt_half fl_tas)
  show "1 / 10 ^ 6 < \<bar>(2 ^ 34 + 1 / 2 ^ 18) - 2 ^ 34 :: real\<bar>" by simp
qed

lemma fl_chain:
  fixes v x :: real
  assumes v: "0 < v" and x: "0 < x" and b: "b = 1 + 1 / 2 ^ 53" and a: "a = 1 - 1 / 2 ^ 53"
  defines "e \<equiv> fl (v * fl (sqrt (fl x)))"
  defines "t \<equiv> fl (e * fl (sqrt (fl (1 / x))))"
  shows "a ^ 5 * v \<le> t" "t \<le> b ^ 5 * v"
proof -
  have a0: "0 < a" "a \<le> 1" and b1: "1 \<le> b" "0 < b" by (simp_all add: a b)
  have y: "0 < 1 / x" using x by simp
  let ?q1 = "fl x" and ?q2 = "fl (1 / x)"
  let ?s1 = "fl (sqrt ?q1)" and ?s2 = "fl (sqrt ?q2)"
  have q1: "a * x \<le> ?q1" "?q1 \<le> b * x" "0 < ?q1"
    using fl_bounds [of x] fl_pos [of x] x by (simp_all add: a b)
  have q2: "a * (1 / x) \<le> ?q2" "?q2 \<le> b * (1 / x)" "0 < ?q2"
    using fl_bounds [of "1 / x"] fl_pos [of "1 / x"] y by (simp_all add: a b)
  have r1: "sqrt (a * x) \<le> sqrt ?q1" "sqrt ?q1 \<le> sqrt (b * x)" "0 < sqrt ?q1"
    using q1 by simp_all
  have r2: "sqrt (a * (1 / x)) \<le> sqrt ?q2" "sqrt ?q2 \<le> sqrt (b * (1 / x))" "0 < sqrt ?q2"
    using q2 by simp_all
  have s1: "a * sqrt ?q1 \<le> ?s1" "?s1 \<le> b * sqrt ?q1" "0 < ?s1"
    using fl_bounds [of "sqrt ?q1"] fl_pos [of "sqrt ?q1"] r1(3) by (simp_all add: a b)
  have s2: "a * sqrt ?q2 \<le> ?s2" "?s2 \<le> b * sqrt ?q2" "0 < ?s2"
    using fl_bounds [of "sqrt ?q2"] fl_pos [of "sqrt ?q2"] r2(3) by (simp_all add: a b)
  have vs: "0 < v * ?s1" using v s1(3) by simp
  have e: "a * (v * ?s1) \<le> e" "e \<le> b * (v * ?s1)" "0 < e"
    using fl_bounds [of "v * ?s1"] fl_pos [of "v * ?s1"] vs by (simp_all add: a b e_def)
  have es: "0 < e * ?s2" using e(3) s2(3) by simp
  have t: "a * (e * ?s2) \<le> t" "t \<le> b * (e * ?s2)"
    using fl_bounds [of "e * ?s2"] es by (simp_all add: a b t_def)
  have sa: "sqrt (a * x) * sqrt (a * (1 / x)) = a"
  proof -
    have "sqrt (a * x) * sqrt (a * (1 / x)) = sqrt ((a * x) * (a * (1 / x)))"
      by (rule real_sqrt_mult [symmetric])
    also have "(a * x) * (a * (1 / x)) = a\<^sup>2" using x by (simp add: power2_eq_square)
    finally show ?thesis using a0 by simp
  qed
  have sb: "sqrt (b * x) * sqrt (b * (1 / x)) = b"
  proof -
    have "sqrt (b * x) * sqrt (b * (1 / x)) = sqrt ((b * x) * (b * (1 / x)))"
      by (rule real_sqrt_mult [symmetric])
    also have "(b * x) * (b * (1 / x)) = b\<^sup>2" using x by (simp add: power2_eq_square)
    finally show ?thesis using b1 by simp
  qed
  have ax: "0 \<le> sqrt (a * x)" "0 \<le> sqrt (a * (1 / x))" using a0 x by simp_all
  \<comment> \<open>upper bound\<close>
  have "?s1 \<le> b * sqrt (b * x)" using s1(2) r1(2) b1 by (meson mult_left_mono order_trans less_imp_le)
  then have "v * ?s1 \<le> v * (b * sqrt (b * x))" using v by simp
  then have e_up: "e \<le> b * (v * (b * sqrt (b * x)))"
    using e(2) b1 by (meson mult_left_mono order_trans less_imp_le)
  have s2_up: "?s2 \<le> b * sqrt (b * (1 / x))"
    using s2(2) r2(2) b1 by (meson mult_left_mono order_trans less_imp_le)
  have "e * ?s2 \<le> (b * (v * (b * sqrt (b * x)))) * (b * sqrt (b * (1 / x)))"
    using e_up s2_up e(3) s2(3) by (intro mult_mono) simp_all
  also have "\<dots> = b ^ 3 * v * (sqrt (b * x) * sqrt (b * (1 / x)))"
    by (simp add: power3_eq_cube algebra_simps)
  also have "\<dots> = b ^ 4 * v" by (simp only: sb) (simp add: power4_eq_xxxx power3_eq_cube algebra_simps)
  finally have "b * (e * ?s2) \<le> b * (b ^ 4 * v)" using b1 by simp
  with t(2) show "t \<le> b ^ 5 * v" by (simp add: power_numeral_reduce algebra_simps)
  \<comment> \<open>lower bound\<close>
  have "a * sqrt (a * x) \<le> ?s1" using s1(1) r1(1) a0 by (meson mult_left_mono order_trans less_imp_le)
  then have "v * (a * sqrt (a * x)) \<le> v * ?s1" using v by simp
  then have e_lo: "a * (v * (a * sqrt (a * x))) \<le> e"
    using e(1) a0 by (meson mult_left_mono order_trans less_imp_le)
  have s2_lo: "a * sqrt (a * (1 / x)) \<le> ?s2"
    using s2(1) r2(1) a0 by (meson mult_left_mono order_trans less_imp_le)
  have "a ^ 4 * v = a ^ 3 * v * (sqrt (a * x) * sqrt (a * (1 / x)))"
    by (simp only: sa) (simp add: power4_eq_xxxx power3_eq_cube algebra_simps)
  also have "\<dots> = (a * (v * (a * sqrt (a * x)))) * (a * sqrt (a * (1 / x)))"
    by (simp add: power3_eq_cube algebra_simps)
  also have "\<dots> \<le> e * ?s2"
    using e_lo s2_lo a0 v ax e(3) by (intro mult_mono) simp_all
  finally have "a * (a ^ 4 * v) \<le> a * (e * ?s2)" using a0 by simp
  with t(1) show "a ^ 5 * v \<le> t" by (simp add: power_numeral_reduce algebra_simps)
qed

lemma ulp_powers:
  "(1 + 1 / 2 ^ 53) ^ 5 \<le> (1 + 6 / 2 ^ 53 :: real)" "(1 - 6 / 2 ^ 53 :: real) \<le> (1 - 1 / 2 ^ 53) ^ 5"
  by (simp_all add: power_divide field_simps)

text \<open>
  Claim C7, amended.  For a scalar true airspeed between \<open>1e-100\<close> and \<open>1e9\<close> m/s and a state
  with a scalar density between \<open>1e-100\<close> and \<open>1e100\<close>, the \<open>EAS\<close> computed from the \<open>TAS\<close>, fed
  back as an \<open>EAS\<close> input at the same atmosphere, gives a \<open>TAS\<close> within one millionth of the
  original, with every operation rounded to double precision.  On these ranges every
  intermediate result is of normal size, where \<open>fl\<close> is the rounding of the code.
\<close>

theorem tas_roundtrip_in_doubles:
  assumes "1 / 10 ^ 100 \<le> v" "v \<le> 10 ^ 9" "1 / 10 ^ 100 \<le> rho" "rho \<le> 10 ^ 100"
  shows "\<exists>e t. tas_eas_fl TAS_branch v rho sos rho0_fl = Inr (v, e) \<and>
               tas_eas_fl EAS_branch e rho sos rho0_fl = Inr (t, e) \<and>
               \<bar>t - v\<bar> < 1 / 10 ^ 6"
proof -
  have rho: "0 < rho" using assms(3) by (rule less_le_trans [rotated]) simp
  have v: "0 < v" using assms(1) by (rule less_le_trans [rotated]) simp
  define x where "x = rho / rho0_fl"
  have x: "0 < x" using rho rho0_fl_pos by (simp add: x_def)
  have inv: "rho0_fl / rho = 1 / x" by (simp add: x_def)
  define e where "e = fl (v * fl (sqrt (fl x)))"
  define t where "t = fl (e * fl (sqrt (fl (1 / x))))"
  from fl_chain [OF v x refl refl]
  have lo: "(1 - 1 / 2 ^ 53) ^ 5 * v \<le> t" and hi: "t \<le> (1 + 1 / 2 ^ 53) ^ 5 * v"
    by (simp_all only: e_def t_def)
  have "(1 - 6 / 2 ^ 53) * v \<le> (1 - 1 / 2 ^ 53) ^ 5 * v"
    using ulp_powers(2) v by (intro mult_right_mono) simp_all
  with lo have lo': "v - 6 * v / 2 ^ 53 \<le> t" by (simp add: algebra_simps)
  have "(1 + 1 / 2 ^ 53) ^ 5 * v \<le> (1 + 6 / 2 ^ 53) * v"
    using ulp_powers(1) v by (intro mult_right_mono) simp_all
  with hi have hi': "t \<le> v + 6 * v / 2 ^ 53" by (simp add: algebra_simps)
  from lo' hi' have err: "\<bar>t - v\<bar> \<le> 6 * v / 2 ^ 53" by linarith
  have "6 * v / 2 ^ 53 \<le> 6 * 10 ^ 9 / 2 ^ 53" using assms(2) by simp
  also have "\<dots> < (1 / 10 ^ 6 :: real)" by simp
  finally have small: "\<bar>t - v\<bar> < 1 / 10 ^ 6" using err by linarith
  have 1: "tas_eas_fl TAS_branch v rho sos rho0_fl = Inr (v, e)"
    using rho0_fl_pos by (simp add: Let_def e_def x_def)
  have 2: "tas_eas_fl EAS_branch e rho sos rho0_fl = Inr (t, e)"
    using rho by (simp add: Let_def t_def inv)
  from 1 2 small show ?thesis by blast
qed

theorem tas_roundtrip_in_doubles_witness:
  "\<exists>e t. tas_eas_fl TAS_branch 100 (1 / 2) 340 rho0_fl = Inr (100, e) \<and>
          tas_eas_fl EAS_branch e (1 / 2) 340 rho0_fl = Inr (t, e) \<and>
          \<bar>t - 100\<bar> < 1 / 10 ^ 6"
  using tas_roundtrip_in_doubles [of 100 "1 / 2" 340] by simp







subsection \<open>Rounding is monotone\<close>

lemma round_even_bounds: "\<lfloor>y\<rfloor> \<le> round_even y" "round_even y \<le> \<lfloor>y\<rfloor> + 1"
  by (simp_all add: round_even_def Let_def)

lemma round_even_of_int [simp]: "round_even (of_int m) = m"
  by (simp add: round_even_def)

lemma round_even_pow2 [simp]: "round_even (2 ^ n) = 2 ^ n"
  using round_even_of_int [of "2 ^ n"] by simp

lemma round_even_mono:
  assumes "y \<le> z"
  shows "round_even y \<le> round_even z"
proof (cases "\<lfloor>y\<rfloor> = \<lfloor>z\<rfloor>")
  case True
  with assms show ?thesis by (auto simp: round_even_def Let_def)
next
  case False
  with assms have "\<lfloor>y\<rfloor> + 1 \<le> \<lfloor>z\<rfloor>" using floor_mono [of y z] by linarith
  with round_even_bounds(2) [of y] round_even_bounds(1) [of z] show ?thesis by linarith
qed


lemma fl_binade:
  assumes "2 powr of_int k \<le> x" "x < 2 powr (of_int k + 1)"
  defines "u \<equiv> 2 powr (of_int k - 52)"
  shows "fl x = of_int (round_even (x / u)) * u"
    and "2 powr of_int k \<le> fl x" and "fl x \<le> 2 powr (of_int k + 1)"
    and "2 ^ 52 \<le> round_even (x / u)" and "round_even (x / u) \<le> 2 ^ 53"
proof -
  have u: "0 < u" by (simp add: u_def)
  have p: "2 powr of_int k = 2 ^ 52 * u" "2 powr (of_int k + 1) = 2 ^ 53 * u"
    by (simp_all add: u_def powr_diff powr_add)
  have "0 < (2::real) powr of_int k" by simp
  with assms(1) have x: "0 < x" by linarith
  then have "\<lfloor>log 2 \<bar>x\<bar>\<rfloor> = k"
    using assms(1,2) by (simp add: floor_log_eq_powr_iff)
  with x show eq: "fl x = of_int (round_even (x / u)) * u"
    by (simp add: fl_def Let_def u_def)
  have "2 ^ 52 * u \<le> x" using assms(1) by (simp only: p)
  then have "2 ^ 52 \<le> x / u" using u by (simp add: field_simps)
  from round_even_mono [OF this] show lo: "2 ^ 52 \<le> round_even (x / u)"
    by (simp only: round_even_pow2)
  have "x < 2 ^ 53 * u" using assms(2) by (simp only: p)
  then have "x / u \<le> 2 ^ 53" using u by (simp add: field_simps)
  from round_even_mono [OF this] show hi: "round_even (x / u) \<le> 2 ^ 53"
    by (simp only: round_even_pow2)
  from lo have "(of_int (2 ^ 52) :: real) \<le> of_int (round_even (x / u))"
    by (simp only: of_int_le_iff)
  then have "(2 ^ 52 :: real) \<le> of_int (round_even (x / u))" by simp
  then have "2 ^ 52 * u \<le> of_int (round_even (x / u)) * u" using u by (intro mult_right_mono) simp_all
  then show "2 powr of_int k \<le> fl x" by (simp add: eq p)
  from hi have "of_int (round_even (x / u)) \<le> (of_int (2 ^ 53) :: real)"
    by (simp only: of_int_le_iff)
  then have "of_int (round_even (x / u)) \<le> (2 ^ 53 :: real)" by simp
  then have "of_int (round_even (x / u)) * u \<le> 2 ^ 53 * u" using u by (intro mult_right_mono) simp_all
  then show "fl x \<le> 2 powr (of_int k + 1)" by (simp add: eq p)
qed








subsection \<open>The layers in doubles\<close>
















lemma layer0_base:
  "isa_gradient_fl 11000 (Hb ! 0) (Tb_fl ! 0) (pb_fl ! 0) (lapserate_fl ! 0) = (Tb_fl ! 1, pb_fl ! 1)"
  by (simp add: isa_gradient_fl_def Let_def Tb_fl_def pb_fl_def lapserate_fl_def lapserate_def Hb_def)

lemma pb_fl_1: "pb_fl ! 1 = snd (isa_gradient_fl 11000 (Hb ! 0) (Tb_fl ! 0) (pb_fl ! 0) (lapserate_fl ! 0))"
  by (simp only: layer0_base snd_conv)



















lemma fl_tie_odd:
  assumes "u = 2 powr (of_int k - 52)" "2 ^ 52 * u \<le> x" "x < 2 ^ 53 * u"
    and "x = (of_int m + 1 / 2) * u" "odd m"
  shows "fl x = of_int (m + 1) * u"
proof -
  have u: "0 < u" by (simp add: assms(1))
  have p: "2 powr of_int k = 2 ^ 52 * u" "2 powr (of_int k + 1) = 2 ^ 53 * u"
    by (simp_all add: assms(1) powr_diff powr_add)
  have b: "2 powr of_int k \<le> x" "x < 2 powr (of_int k + 1)"
    using assms(2,3) by (simp_all only: p)
  have "x / u = of_int m + 1 / 2" using u by (simp add: assms(4))
  moreover have "round_even (of_int m + 1 / 2) = m + 1"
  proof -
    have "\<lfloor>of_int m + (1 / 2 :: real)\<rfloor> = m" by linarith
    then show ?thesis using assms(5) by (simp add: round_even_def Let_def)
  qed
  ultimately show ?thesis
    using fl_binade(1) [OF b] by (simp add: assms(1))
qed

lemma g2h_products:
  "fl (6356766 * (8796285032235775 / 2 ^ 39)) = 6665697767642174 / 2 ^ 16"
  "fl (6356766 * (8796285032235776 / 2 ^ 39)) = 6665697767642174 / 2 ^ 16"
proof -
  have "fl (6356766 * (8796285032235775 / 2 ^ 39)) = of_int 6665697767642174 * (1 / 2 ^ 16)"
    by (rule fl_eqI2 [where k = 36]) (simp_all add: powr_neg_numeral)
  then show "fl (6356766 * (8796285032235775 / 2 ^ 39)) = 6665697767642174 / 2 ^ 16" by simp
  have "fl (6356766 * (8796285032235776 / 2 ^ 39)) = of_int 6665697767642174 * (1 / 2 ^ 16)"
    by (rule fl_eqI2 [where k = 36]) (simp_all add: powr_neg_numeral)
  then show "fl (6356766 * (8796285032235776 / 2 ^ 39)) = 6665697767642174 / 2 ^ 16" by simp
qed

lemma g2h_sums:
  "fl (6356766 + 8796285032235775 / 2 ^ 39) = 6842705763784769 / 2 ^ 30"
  "fl (6356766 + 8796285032235776 / 2 ^ 39) = 6842705763784770 / 2 ^ 30"
proof -
  have "fl (6356766 + 8796285032235775 / 2 ^ 39) = of_int 6842705763784769 * (1 / 2 ^ 30)"
    by (rule fl_eqI2 [where k = 22]) (simp_all add: powr_neg_numeral)
  then show "fl (6356766 + 8796285032235775 / 2 ^ 39) = 6842705763784769 / 2 ^ 30" by simp
  have "fl (6356766 + 8796285032235776 / 2 ^ 39) = of_int (6842705763784769 + 1) * (1 / 2 ^ 30)"
    by (rule fl_tie_odd [where k = 22]) (simp_all add: powr_neg_numeral)
  then show "fl (6356766 + 8796285032235776 / 2 ^ 39) = 6842705763784770 / 2 ^ 30" by simp
qed

lemma g2h_quotients:
  "fl (6665697767642174 / 2 ^ 16 / (6842705763784769 / 2 ^ 30)) = 8774199861521879 / 2 ^ 39"
  "fl (6665697767642174 / 2 ^ 16 / (6842705763784770 / 2 ^ 30)) = 8774199861521878 / 2 ^ 39"
proof -
  have "fl (6665697767642174 / 2 ^ 16 / (6842705763784769 / 2 ^ 30))
        = of_int 8774199861521879 * (1 / 2 ^ 39)"
    by (rule fl_eqI2 [where k = 13]) (simp_all add: powr_neg_numeral)
  then show "fl (6665697767642174 / 2 ^ 16 / (6842705763784769 / 2 ^ 30)) = 8774199861521879 / 2 ^ 39"
    by simp
  have "fl (6665697767642174 / 2 ^ 16 / (6842705763784770 / 2 ^ 30))
        = of_int 8774199861521878 * (1 / 2 ^ 39)"
    by (rule fl_eqI2 [where k = 13]) (simp_all add: powr_neg_numeral)
  then show "fl (6665697767642174 / 2 ^ 16 / (6842705763784770 / 2 ^ 30)) = 8774199861521878 / 2 ^ 39"
    by simp
qed

text \<open>
  The theorem is about geopotential altitudes.  A geometric altitude is converted first, and
  the rounded conversion is not monotone: from the double \<open>16000.349264205897\<close> to the next
  one the geopotential altitude falls by one unit in the last place.
\<close>

lemma geopotential_falls_in_doubles:
  "geometric2geopotential_fl (8796285032235775 / 2 ^ 39) = 8774199861521879 / 2 ^ 39"
  "geometric2geopotential_fl (8796285032235776 / 2 ^ 39) = 8774199861521878 / 2 ^ 39"
  by (simp_all only: geometric2geopotential_fl_def R_EARTH_def g2h_products g2h_sums g2h_quotients)

end
